theory Spec2Isabelle
  imports Complex_Main "HOL-Library.List_Lexorder" "HOL-Library.Char_ord" "HOL-Library.Log_Nat"
begin

section \<open>Values and tables of the embedded store\<close>

text \<open>
  The bot keeps four SQLite tables (\<^verbatim>\<open>database/init.js\<close>): \<^verbatim>\<open>messages\<close>,
  \<^verbatim>\<open>reactions\<close>, \<^verbatim>\<open>members\<close> and \<^verbatim>\<open>guild_settings\<close>. A JavaScript value that
  the program binds to a statement or reads from a row is a number, a string, \<^verbatim>\<open>null\<close> or
  \<^verbatim>\<open>undefined\<close>. Guild, user and channel identifiers are Discord snowflakes, always
  strings; timestamps are \<^verbatim>\<open>Date.now()\<close> milliseconds, integers far below \<open>2^53\<close>.
\<close>

datatype jsval = Undefined | Null | Num int | Str string

text \<open>JavaScript truthiness, as used by \<^verbatim>\<open>settings.enabled ? ... : ...\<close> and \<^verbatim>\<open>!settings.enabled\<close>.\<close>

fun truthy :: "jsval \<Rightarrow> bool" where
  "truthy Undefined = False"
| "truthy Null = False"
| "truthy (Num n) = (n \<noteq> 0)"
| "truthy (Str s) = (s \<noteq> [])"

record message_row =
  m_guild_id :: string
  m_user_id :: string
  m_channel_id :: string
  m_message_length :: int
  m_timestamp :: int

record reaction_row =
  r_guild_id :: string
  r_user_id :: string
  r_emoji :: string
  r_timestamp :: int

record member_row =
  mb_guild_id :: string
  mb_user_id :: string
  mb_action :: string
  mb_timestamp :: int

text \<open>
  A row of \<^verbatim>\<open>guild_settings\<close>, and also the JavaScript object that \<^verbatim>\<open>getGuildSettings\<close>
  returns: a property that the object does not have reads \<open>Undefined\<close>.
\<close>

record settings_row =
  guild_id :: string
  enabled :: jsval
  log_channel_id :: jsval
  tracked_channels :: jsval
  notifications_enabled :: jsval

record database =
  messages :: "message_row list"
  reactions :: "reaction_row list"
  members :: "member_row list"
  guild_settings :: "settings_row list"

definition initDatabase :: database where
  "initDatabase = \<lparr>messages = [], reactions = [], members = [], guild_settings = []\<rparr>"

datatype error = SqliteSyntaxError | SqliteConstraintPrimaryKey | JsonSyntaxError

section \<open>Tracking functions (\<^verbatim>\<open>database/queries.js\<close>)\<close>

text \<open>Each function runs one INSERT with \<^verbatim>\<open>Date.now()\<close>, here the argument \<open>now\<close>.\<close>

definition trackMessage :: "string \<Rightarrow> string \<Rightarrow> string \<Rightarrow> int \<Rightarrow> int \<Rightarrow> database \<Rightarrow> database" where
  "trackMessage guildId userId channelId messageLength now db =
     db\<lparr>messages := messages db @
       [\<lparr>m_guild_id = guildId, m_user_id = userId, m_channel_id = channelId,
         m_message_length = messageLength, m_timestamp = now\<rparr>]\<rparr>"

definition trackReaction :: "string \<Rightarrow> string \<Rightarrow> string \<Rightarrow> int \<Rightarrow> database \<Rightarrow> database" where
  "trackReaction guildId userId emoji now db =
     db\<lparr>reactions := reactions db @
       [\<lparr>r_guild_id = guildId, r_user_id = userId, r_emoji = emoji, r_timestamp = now\<rparr>]\<rparr>"

definition trackMember :: "string \<Rightarrow> string \<Rightarrow> string \<Rightarrow> int \<Rightarrow> database \<Rightarrow> database" where
  "trackMember guildId userId action now db =
     db\<lparr>members := members db @
       [\<lparr>mb_guild_id = guildId, mb_user_id = userId, mb_action = action, mb_timestamp = now\<rparr>]\<rparr>"

section \<open>Settings management (\<^verbatim>\<open>database/queries.js\<close>)\<close>

text \<open>
  \<^verbatim>\<open>SELECT * FROM guild_settings WHERE guild_id = ?\<close> with \<^verbatim>\<open>.get\<close>: the first matching
  row, or \<^verbatim>\<open>undefined\<close>.
\<close>

definition select_settings :: "string \<Rightarrow> database \<Rightarrow> settings_row option" where
  "select_settings guildId db = find (\<lambda>r. guild_id r = guildId) (guild_settings db)"

text \<open>The row that \<^verbatim>\<open>INSERT INTO guild_settings (guild_id) VALUES (?)\<close> creates from the column defaults.\<close>

definition default_row :: "string \<Rightarrow> settings_row" where
  "default_row guildId =
     \<lparr>guild_id = guildId, enabled = Num 1, log_channel_id = Null,
      tracked_channels = Str ''[]'', notifications_enabled = Num 1\<rparr>"

text \<open>
  The INSERT itself: \<^verbatim>\<open>guild_id\<close> is the table's PRIMARY KEY, so SQLite rejects a second
  row for the same guild and the statement throws.
\<close>

definition insert_settings :: "string \<Rightarrow> database \<Rightarrow> error + database" where
  "insert_settings guildId db =
     (if list_ex (\<lambda>r. guild_id r = guildId) (guild_settings db)
      then Inl SqliteConstraintPrimaryKey
      else Inr (db\<lparr>guild_settings := guild_settings db @ [default_row guildId]\<rparr>))"

text \<open>The object literal that \<^verbatim>\<open>getGuildSettings\<close> returns after it has inserted a row.\<close>

definition created_settings :: "string \<Rightarrow> settings_row" where
  "created_settings guildId =
     \<lparr>guild_id = guildId, enabled = Num 1, log_channel_id = Undefined,
      tracked_channels = Str ''[]'', notifications_enabled = Num 1\<rparr>"

definition getGuildSettings :: "string \<Rightarrow> database \<Rightarrow> (error + settings_row) \<times> database" where
  "getGuildSettings guildId db =
     (case select_settings guildId db of
        Some settings \<Rightarrow> (Inr settings, db)
      | None \<Rightarrow>
          (case insert_settings guildId db of
             Inl e \<Rightarrow> (Inl e, db)
           | Inr db' \<Rightarrow> (Inr (created_settings guildId), db')))"

text \<open>
  The keys of a partial update are columns of the settings row. The callers of the
  repository name \<^verbatim>\<open>enabled\<close>, \<^verbatim>\<open>notifications_enabled\<close> and \<^verbatim>\<open>log_channel_id\<close>; the key column
  \<^verbatim>\<open>guild_id\<close> is the WHERE argument and is never assigned.
\<close>

datatype column = Enabled | LogChannelId | TrackedChannels | NotificationsEnabled

text \<open>
  A partial update is type-correct, which is all the store asks of it and what every
  caller in the repository passes: \<^verbatim>\<open>enabled\<close> and \<^verbatim>\<open>notifications_enabled\<close>, declared INTEGER,
  are assigned an integer number, \<^verbatim>\<open>log_channel_id\<close> and \<^verbatim>\<open>tracked_channels\<close>, declared TEXT, a
  string, and any of them may be assigned \<^verbatim>\<open>null\<close> (\<open>None\<close>; the binder of better-sqlite3
  stores \<^verbatim>\<open>undefined\<close> as NULL too). For such a value the column affinity of SQLite converts
  nothing that a read could see: the number comes back as that number, the string as
  that string. A value of another type (a string for an INTEGER column, a number for a
  TEXT column) would be converted by the affinity; the type of a partial leaves it out.
\<close>

datatype assignment =
    SetEnabled "int option"
  | SetLogChannelId "string option"
  | SetTrackedChannels "string option"
  | SetNotificationsEnabled "int option"

fun column_of :: "assignment \<Rightarrow> column" where
  "column_of (SetEnabled v) = Enabled"
| "column_of (SetLogChannelId v) = LogChannelId"
| "column_of (SetTrackedChannels v) = TrackedChannels"
| "column_of (SetNotificationsEnabled v) = NotificationsEnabled"

text \<open>The value that a later SELECT reads from the assigned column.\<close>

fun stored_value :: "assignment \<Rightarrow> jsval" where
  "stored_value (SetEnabled v) = (case v of None \<Rightarrow> Null | Some n \<Rightarrow> Num n)"
| "stored_value (SetLogChannelId v) = (case v of None \<Rightarrow> Null | Some x \<Rightarrow> Str x)"
| "stored_value (SetTrackedChannels v) = (case v of None \<Rightarrow> Null | Some x \<Rightarrow> Str x)"
| "stored_value (SetNotificationsEnabled v) = (case v of None \<Rightarrow> Null | Some n \<Rightarrow> Num n)"

fun set_column :: "assignment \<Rightarrow> settings_row \<Rightarrow> settings_row" where
  "set_column (SetEnabled v) r = r\<lparr>enabled := stored_value (SetEnabled v)\<rparr>"
| "set_column (SetLogChannelId v) r = r\<lparr>log_channel_id := stored_value (SetLogChannelId v)\<rparr>"
| "set_column (SetTrackedChannels v) r = r\<lparr>tracked_channels := stored_value (SetTrackedChannels v)\<rparr>"
| "set_column (SetNotificationsEnabled v) r =
     r\<lparr>notifications_enabled := stored_value (SetNotificationsEnabled v)\<rparr>"

fun get_column :: "column \<Rightarrow> settings_row \<Rightarrow> jsval" where
  "get_column Enabled r = enabled r"
| "get_column LogChannelId r = log_channel_id r"
| "get_column TrackedChannels r = tracked_channels r"
| "get_column NotificationsEnabled r = notifications_enabled r"

text \<open>
  \<^verbatim>\<open>UPDATE guild_settings SET k1 = ?, ..., kn = ? WHERE guild_id = ?\<close>, the assignments in
  the order of \<^verbatim>\<open>Object.keys(updates)\<close>. With no key the SET list is empty, the text is
  not SQL, and \<^verbatim>\<open>db.prepare\<close> throws before anything runs.
\<close>

definition updateGuildSettings ::
  "string \<Rightarrow> assignment list \<Rightarrow> database \<Rightarrow> (error + unit) \<times> database" where
  "updateGuildSettings guildId updates db =
     (if updates = [] then (Inl SqliteSyntaxError, db)
      else (Inr (),
            db\<lparr>guild_settings :=
                 map (\<lambda>r. if guild_id r = guildId then fold set_column updates r else r)
                     (guild_settings db)\<rparr>))"

text \<open>
  \<^verbatim>\<open>getGuildSettings\<close> is synchronous: it has no \<^verbatim>\<open>await\<close>, and the process has one thread
  and one connection. Nothing else of the program runs between its SELECT and its
  INSERT, so callers that race for a new guild are served one whole call after the
  other. The spec words the step as one atomic insert-if-absent, which is the function
  below, for comparison with the source's.
\<close>

definition spec_insert_if_absent :: "string \<Rightarrow> database \<Rightarrow> database" where
  "spec_insert_if_absent guildId db =
     (if list_ex (\<lambda>r. guild_id r = guildId) (guild_settings db) then db
      else db\<lparr>guild_settings := guild_settings db @ [default_row guildId]\<rparr>)"

text \<open>The operations of the store, and the store after one of them.\<close>

datatype operation =
    TrackMessage string string string int int
  | TrackReaction string string string int
  | TrackMember string string string int
  | GetGuildSettings string
  | UpdateGuildSettings string "assignment list"

fun apply_operation :: "operation \<Rightarrow> database \<Rightarrow> database" where
  "apply_operation (TrackMessage g u c n now) db = trackMessage g u c n now db"
| "apply_operation (TrackReaction g u e now) db = trackReaction g u e now db"
| "apply_operation (TrackMember g u a now) db = trackMember g u a now db"
| "apply_operation (GetGuildSettings g) db = snd (getGuildSettings g db)"
| "apply_operation (UpdateGuildSettings g us) db = snd (updateGuildSettings g us db)"

text \<open>The number of settings rows of a guild.\<close>

definition settings_rows :: "string \<Rightarrow> database \<Rightarrow> nat" where
  "settings_rows guildId db = length (filter (\<lambda>r. guild_id r = guildId) (guild_settings db))"

text \<open>The invariant of the settings table.\<close>

definition one_row_per_guild :: "database \<Rightarrow> bool" where
  "one_row_per_guild db \<longleftrightarrow> distinct (map guild_id (guild_settings db))"

section \<open>Analytics queries (\<^verbatim>\<open>database/queries.js\<close>)\<close>

definition timeRange :: "string \<Rightarrow> int" where
  "timeRange period =
     (if period = ''week'' then 7 * 24 * 60 * 60 * 1000 else 30 * 24 * 60 * 60 * 1000)"

text \<open>\<^verbatim>\<open>WHERE guild_id = ? AND timestamp >= ?\<close>\<close>

definition in_window :: "string \<Rightarrow> int \<Rightarrow> message_row \<Rightarrow> bool" where
  "in_window guildId startTime m \<longleftrightarrow> m_guild_id m = guildId \<and> m_timestamp m \<ge> startTime"

text \<open>
  \<^verbatim>\<open>SELECT k, COUNT(*) ... GROUP BY k\<close>: one row for each key that occurs, with the number of
  rows that carry it, here in ascending key order.
\<close>

definition group_count :: "('r \<Rightarrow> 'k::linorder) \<Rightarrow> 'r list \<Rightarrow> ('k \<times> nat) list" where
  "group_count key rows =
     map (\<lambda>k. (k, length (filter (\<lambda>r. key r = k) rows)))
         (sort (remdups (map key rows)))"

text \<open>
  \<^verbatim>\<open>ORDER BY count DESC LIMIT 10\<close>. The sort is the engine's and is passed in: \<open>order_by\<close>
  returns the groups by descending count. SQL leaves the order of equal counts open, and
  SQLite's depends on its version and on the plan it picks, so the model does not fix
  one: whatever the engine does with ties is one such function.
\<close>

definition top10 :: "(('k \<times> nat) list \<Rightarrow> ('k \<times> nat) list) \<Rightarrow> ('k \<times> nat) list \<Rightarrow> ('k \<times> nat) list" where
  "top10 order_by groups = take 10 (order_by groups)"

record analytics =
  topUsers :: "(string \<times> nat) list"
  topChannels :: "(string \<times> nat) list"
  totalMessages :: nat
  newMembers :: nat
  leftMembers :: nat
  dailyActivity :: "(int \<times> nat) list"
  hourlyActivity :: "(nat \<times> nat) list"

text \<open>
  \<open>now\<close> is the value of \<^verbatim>\<open>Date.now()\<close>. The key of \<open>dailyActivity\<close> is the day number
  since the epoch, which \<^verbatim>\<open>DATE(timestamp / 1000, 'unixepoch')\<close> prints as a calendar date;
  the hour is \<^verbatim>\<open>strftime('%H', ...)\<close> of the same instant, for the non-negative
  timestamps the program writes.
\<close>

definition getAnalytics ::
  "((string \<times> nat) list \<Rightarrow> (string \<times> nat) list) \<Rightarrow> int \<Rightarrow> string \<Rightarrow> string \<Rightarrow> database \<Rightarrow> analytics" where
  "getAnalytics order_by now guildId period db =
     (let startTime = now - timeRange period;
          rows = filter (in_window guildId startTime) (messages db);
          joined = filter (\<lambda>r. mb_guild_id r = guildId \<and> mb_action r = ''join'' \<and> mb_timestamp r \<ge> startTime) (members db);
          left = filter (\<lambda>r. mb_guild_id r = guildId \<and> mb_action r = ''leave'' \<and> mb_timestamp r \<ge> startTime) (members db)
      in \<lparr>topUsers = top10 order_by (group_count m_user_id rows),
          topChannels = top10 order_by (group_count m_channel_id rows),
          totalMessages = length rows,
          newMembers = length joined,
          leftMembers = length left,
          dailyActivity = group_count (\<lambda>m. m_timestamp m div 1000 div 86400) rows,
          hourlyActivity = group_count (\<lambda>m. nat (m_timestamp m div 1000 div 3600 mod 24)) rows\<rparr>)"




section \<open>Heatmap series (\<^verbatim>\<open>services/chart-generator.js\<close>)\<close>

text \<open>
  \<^verbatim>\<open>generateHeatmap\<close> builds \<^verbatim>\<open>hours\<close> with \<^verbatim>\<open>Array.from({ length: 24 }, (_, i) => i)\<close> and
  \<^verbatim>\<open>counts\<close> by looking each hour up in the sparse rows with \<^verbatim>\<open>find\<close>; the two arrays are
  what the renderer receives as labels and data.
\<close>

definition heatmap_hours :: "nat list" where
  "heatmap_hours = [0..<24]"

definition heatmap_counts :: "(nat \<times> nat) list \<Rightarrow> nat list" where
  "heatmap_counts activity =
     map (\<lambda>h. case find (\<lambda>a. fst a = h) activity of
                 Some found \<Rightarrow> snd found
               | None \<Rightarrow> 0)
         heatmap_hours"

section \<open>The message listener (\<^verbatim>\<open>index.js\<close>)\<close>

record message_event =
  author_bot :: bool
  msg_guild :: "string option"
  msg_author :: string
  msg_channel :: string
  content_length :: int

text \<open>
  \<^verbatim>\<open>JSON.parse\<close> is the runtime's, and it is passed in: \<open>parse v\<close> is the array of channel
  identifiers that the text holds (the schema documents the column as a JSON array of
  channel IDs), or \<open>None\<close> when \<^verbatim>\<open>JSON.parse\<close> throws, which ends the handler.
  \<^verbatim>\<open>settings.tracked_channels || "[]"\<close> replaces a falsy value by the text of the empty
  array.
\<close>

definition or_empty_array :: "jsval \<Rightarrow> jsval" where
  "or_empty_array v = (if truthy v then v else Str ''[]'')"

definition onMessageCreate ::
  "(jsval \<Rightarrow> string list option) \<Rightarrow> message_event \<Rightarrow> int \<Rightarrow> database \<Rightarrow> (error + unit) \<times> database" where
  "onMessageCreate parse message now db =
     (if author_bot message then (Inr (), db)
      else case msg_guild message of
        None \<Rightarrow> (Inr (), db)
      | Some guild \<Rightarrow>
          (case getGuildSettings guild db of
             (Inl e, db1) \<Rightarrow> (Inl e, db1)
           | (Inr settings, db1) \<Rightarrow>
               if \<not> truthy (enabled settings) then (Inr (), db1)
               else (case parse (or_empty_array (tracked_channels settings)) of
                       None \<Rightarrow> (Inl JsonSyntaxError, db1)
                     | Some trackedChannels \<Rightarrow>
                         if length trackedChannels > 0 \<and> msg_channel message \<notin> set trackedChannels
                         then (Inr (), db1)
                         else (Inr (), trackMessage guild (msg_author message) (msg_channel message)
                                         (content_length message) now db1))))"

section \<open>The settings command and its collector (\<^verbatim>\<open>commands/settings.js\<close>)\<close>

text \<open>Decimal text of a number, as a template literal prints it.\<close>

definition digit_char :: "nat \<Rightarrow> char" where
  "digit_char n = ''0123456789'' ! n"

function string_of_nat :: "nat \<Rightarrow> string" where
  "string_of_nat n =
     (if n < 10 then [digit_char n] else string_of_nat (n div 10) @ [digit_char (n mod 10)])"
  by pat_completeness auto
termination
  by (relation "measure id") auto

definition to_string :: "jsval \<Rightarrow> string" where
  "to_string v =
     (case v of
        Undefined \<Rightarrow> ''undefined''
      | Null \<Rightarrow> ''null''
      | Num n \<Rightarrow> (if n < 0 then ''-'' @ string_of_nat (nat (- n)) else string_of_nat (nat n))
      | Str s \<Rightarrow> s)"

datatype button_style = Danger | Success

text \<open>
  What the operator sees: the three fields that the handler splices into the embed, the
  field of tracked channels, the two buttons of the first row and the options of the
  channel menu. The texts are those of the source without their leading emoji.
\<close>

record view =
  tracking_field :: string
  notifications_field :: string
  log_channel_field :: string
  tracked_channels_field :: string
  tracking_label :: string
  tracking_style :: button_style
  alerts_label :: string
  alerts_style :: button_style
  channel_options :: "(string \<times> string) list"

definition status_text :: "jsval \<Rightarrow> string" where
  "status_text v = (if truthy v then ''Enabled'' else ''Disabled'')"

definition log_channel_text :: "jsval \<Rightarrow> string" where
  "log_channel_text v = (if truthy v then ''<#'' @ to_string v @ ''>'' else ''Not set'')"

fun join_comma :: "string list \<Rightarrow> string" where
  "join_comma [] = []"
| "join_comma [x] = x"
| "join_comma (x # y # ys) = x @ '', '' @ join_comma (y # ys)"

definition tracked_text :: "string list \<Rightarrow> string" where
  "tracked_text trackedChannels =
     (if length trackedChannels > 0
      then join_comma (map (\<lambda>i. ''<#'' @ i @ ''>'') trackedChannels)
      else ''All channels'')"

text \<open>The fields and buttons that the handler rewrites after every collected action.\<close>

definition render :: "settings_row \<Rightarrow> view \<Rightarrow> view" where
  "render settings v =
     v\<lparr>tracking_field := status_text (enabled settings),
       notifications_field := status_text (notifications_enabled settings),
       log_channel_field := log_channel_text (log_channel_id settings),
       tracking_label := (if truthy (enabled settings) then ''Disable Tracking'' else ''Enable Tracking''),
       tracking_style := (if truthy (enabled settings) then Danger else Success),
       alerts_label := (if truthy (notifications_enabled settings) then ''Disable Alerts'' else ''Enable Alerts''),
       alerts_style := (if truthy (notifications_enabled settings) then Danger else Success)\<rparr>"

record channel =
  ch_name :: string
  ch_id :: string
  ch_is_text :: bool

datatype reply = InteractionReply view | ComponentReply string | EditReply view

text \<open>
  The state that the closures of \<^verbatim>\<open>execute\<close> capture: the guild, the operator and the
  channel of the command, the cached settings object, the embed and rows, and the
  instant at which the collector was created.
\<close>

record session =
  s_guild :: string
  s_user :: string
  s_channel :: string
  s_settings :: settings_row
  s_view :: view
  s_created :: int

record component_interaction =
  customId :: string
  ci_user :: string
  ci_channel :: string
  ci_values :: "string list"

text \<open>The command up to the creation of the collector.\<close>

definition execute ::
  "(jsval \<Rightarrow> string list option) \<Rightarrow> string \<Rightarrow> string \<Rightarrow> string \<Rightarrow> channel list \<Rightarrow> int \<Rightarrow> database
     \<Rightarrow> (error + reply list \<times> session) \<times> database" where
  "execute parse guild user chan channels now db =
     (case getGuildSettings guild db of
        (Inl e, db1) \<Rightarrow> (Inl e, db1)
      | (Inr settings, db1) \<Rightarrow>
          (case parse (or_empty_array (tracked_channels settings)) of
             None \<Rightarrow> (Inl JsonSyntaxError, db1)
           | Some trackedChannels \<Rightarrow>
               (let textChannels = take 25 (map (\<lambda>ch. (ch_name ch, ch_id ch)) (filter ch_is_text channels));
                    v = render settings
                          \<lparr>tracking_field = [], notifications_field = [], log_channel_field = [],
                           tracked_channels_field = tracked_text trackedChannels,
                           tracking_label = [], tracking_style = Success,
                           alerts_label = [], alerts_style = Success,
                           channel_options = textChannels\<rparr>
                in (Inr ([InteractionReply v],
                         \<lparr>s_guild = guild, s_user = user, s_channel = chan, s_settings = settings,
                          s_view = v, s_created = now\<rparr>), db1))))"

text \<open>
  The \<^verbatim>\<open>collect\<close> handler: one branch for each known \<^verbatim>\<open>customId\<close>, each a store write from
  the cached object followed by the same change of the cache and a reply; then, whatever
  the branch, the view is rendered again and sent with \<^verbatim>\<open>editReply\<close>. A throwing statement
  ends the handler.
\<close>

definition collect ::
  "session \<Rightarrow> component_interaction \<Rightarrow> database \<Rightarrow> reply list \<times> session \<times> database" where
  "collect s i db =
     (let settings = s_settings s;
          branch =
            (if customId i = ''toggle_tracking'' then
               (let v = (if truthy (enabled settings) then 0 else 1) in
                case updateGuildSettings (s_guild s) [SetEnabled (Some v)] db of
                  (Inl e, db1) \<Rightarrow> Inl db1
                | (Inr u, db1) \<Rightarrow>
                    Inr ([ComponentReply (''Tracking '' @ (if truthy (Num v) then ''enabled'' else ''disabled'') @ ''!'')],
                         settings\<lparr>enabled := Num v\<rparr>, db1))
             else if customId i = ''toggle_notifications'' then
               (let v = (if truthy (notifications_enabled settings) then 0 else 1) in
                case updateGuildSettings (s_guild s) [SetNotificationsEnabled (Some v)] db of
                  (Inl e, db1) \<Rightarrow> Inl db1
                | (Inr u, db1) \<Rightarrow>
                    Inr ([ComponentReply (''Notifications '' @ (if truthy (Num v) then ''enabled'' else ''disabled'') @ ''!'')],
                         settings\<lparr>notifications_enabled := Num v\<rparr>, db1))
             else if customId i = ''set_log_channel'' then
               (let channelId = (case ci_values i of [] \<Rightarrow> Undefined | x # xs \<Rightarrow> Str x) in
                case updateGuildSettings (s_guild s)
                       [SetLogChannelId (case ci_values i of [] \<Rightarrow> None | x # xs \<Rightarrow> Some x)] db of
                  (Inl e, db1) \<Rightarrow> Inl db1
                | (Inr u, db1) \<Rightarrow>
                    Inr ([ComponentReply (''Log channel set to <#'' @ to_string channelId @ ''>!'')],
                         settings\<lparr>log_channel_id := channelId\<rparr>, db1))
             else Inr ([], settings, db))
      in case branch of
           Inl db1 \<Rightarrow> ([], s, db1)
         | Inr (out, settings', db1) \<Rightarrow>
             (let v = render settings' (s_view s)
              in (out @ [EditReply v], s\<lparr>s_settings := settings', s_view := v\<rparr>, db1)))"

text \<open>
  The collector of discord.js, created with \<^verbatim>\<open>time: 300000\<close> on the channel of the command
  and the filter \<^verbatim>\<open>i.user.id === interaction.user.id\<close>: its timer stops it 300000 ms after
  its creation, and a stopped collector no longer listens, so that the handler runs for
  a component interaction of the channel only before that instant and only when the
  filter accepts it. Nothing else in the command reacts to a component interaction.
  \<open>deliver s t i db\<close> is what the session \<open>s\<close> does with the interaction \<open>i\<close> at the
  instant \<open>t\<close>; a collector looks at the channel and the user, not at the message that
  carries the button, so every session of the operator in the channel is handed the
  same interaction.
\<close>

definition collector_time :: int where
  "collector_time = 300000"

definition expires_at :: "session \<Rightarrow> int" where
  "expires_at s = s_created s + collector_time"

definition collector_ended :: "session \<Rightarrow> int \<Rightarrow> bool" where
  "collector_ended s t \<longleftrightarrow> t \<ge> expires_at s"

definition deliver ::
  "session \<Rightarrow> int \<Rightarrow> component_interaction \<Rightarrow> database \<Rightarrow> reply list \<times> session \<times> database" where
  "deliver s t i db =
     (if \<not> collector_ended s t \<and> ci_channel i = s_channel s \<and> ci_user i = s_user s
      then collect s i db
      else ([], s, db))"

section \<open>The change percentage (\<^verbatim>\<open>commands/report.js\<close>, \<^verbatim>\<open>services/scheduler.js\<close>)\<close>

text \<open>
  A JavaScript number is an IEEE 754 binary64 value. A value \<open>x \<noteq> 0\<close> with
  \<open>2^e \<le> |x| < 2^(e+1)\<close> lies between two neighbouring doubles, multiples of \<open>2^(e-52)\<close>,
  and an arithmetic operation returns the one nearest to the exact result, the even
  multiple on a tie. The model is the normal range of the format, without overflow and
  subnormal numbers: message counts are integers below \<open>2^53\<close>, and every intermediate
  value of the expression below is zero or between \<open>2^-53\<close> and \<open>2^60\<close> in magnitude.
\<close>

text \<open>The exponent \<open>e\<close> of a value that is not zero.\<close>

definition exponent :: "rat \<Rightarrow> int" where
  "exponent x =
     (let (a, b) = quotient_of \<bar>x\<bar>; d = bitlen a - bitlen b
      in if 2 powi d \<le> \<bar>x\<bar> then d else d - 1)"

definition round_half_even :: "rat \<Rightarrow> int" where
  "round_half_even y =
     (let f = \<lfloor>y\<rfloor>; r = y - of_int f
      in if r < 1 / 2 then f else if r > 1 / 2 then f + 1 else if even f then f else f + 1)"

definition round_double :: "rat \<Rightarrow> rat" where
  "round_double x =
     (if x = 0 then 0
      else (let u = 2 powi (exponent x - 52) in of_int (round_half_even (x / u)) * u))"

definition js_sub :: "rat \<Rightarrow> rat \<Rightarrow> rat" where
  "js_sub a b = round_double (a - b)"

definition js_div :: "rat \<Rightarrow> rat \<Rightarrow> rat" where
  "js_div a b = round_double (a / b)"

definition js_mul :: "rat \<Rightarrow> rat \<Rightarrow> rat" where
  "js_mul a b = round_double (a * b)"

text \<open>
  \<^verbatim>\<open>x.toFixed(1)\<close> for \<open>|x| < 10^21\<close>: with \<open>n\<close> the integer for which \<open>n / 10\<close> is nearest to
  \<open>|x|\<close> (the larger one on a tie), the digits of \<open>n\<close> with a point before the last one,
  after a minus sign when \<open>x < 0\<close>.
\<close>

definition fixed1_tenths :: "rat \<Rightarrow> nat" where
  "fixed1_tenths x = nat \<lfloor>\<bar>x\<bar> * 10 + 1 / 2\<rfloor>"

definition toFixed1 :: "rat \<Rightarrow> string" where
  "toFixed1 x =
     (let n = fixed1_tenths x
      in (if x < 0 then ''-'' else []) @ string_of_nat (n div 10) @ ''.'' @ [digit_char (n mod 10)])"

text \<open>
  \<^verbatim>\<open>previous.totalMessages > 0 ? (((cur - prev) / prev) * 100).toFixed(1) : 0\<close>, the same
  expression in the report command and in the weekly report: a string in the first
  branch, the number 0 in the second.
\<close>

definition change :: "nat \<Rightarrow> nat \<Rightarrow> jsval" where
  "change cur prev =
     (if prev > 0
      then Str (toFixed1 (js_mul (js_div (js_sub (of_nat cur) (of_nat prev)) (of_nat prev)) 100))
      else Num 0)"

section \<open>Partial updates of the settings row\<close>

lemma get_column_set_other:
  "c \<noteq> column_of u \<Longrightarrow> get_column c (set_column u r) = get_column c r"
  by (cases u; cases c) auto

lemma get_column_set_same: "get_column (column_of u) (set_column u r) = stored_value u"
  by (cases u) auto

lemma guild_id_set_column [simp]: "guild_id (set_column u r) = guild_id r"
  by (cases u) auto

lemma get_column_fold_other:
  "c \<notin> column_of ` set us \<Longrightarrow> get_column c (fold set_column us r) = get_column c r"
  by (induction us arbitrary: r) (auto simp: get_column_set_other)

lemma guild_id_fold_set_column [simp]: "guild_id (fold set_column us r) = guild_id r"
  by (induction us arbitrary: r) auto

lemma get_column_fold_last:
  "distinct (map column_of us) \<Longrightarrow> a \<in> set us
     \<Longrightarrow> get_column (column_of a) (fold set_column us r) = stored_value a"
proof (induction us arbitrary: r)
  case Nil
  then show ?case by simp
next
  case (Cons u us)
  show ?case
  proof (cases "a \<in> set us")
    case True
    with Cons show ?thesis by simp
  next
    case False
    with Cons.prems have u: "u = a" and notin: "column_of a \<notin> column_of ` set us" by auto
    have "get_column (column_of a) (fold set_column us (set_column u r))
            = get_column (column_of a) (set_column u r)"
      using notin by (rule get_column_fold_other)
    also have "\<dots> = stored_value a" unfolding u by (rule get_column_set_same)
    finally show ?thesis by simp
  qed
qed

lemma find_map_update:
  "find (\<lambda>r. guild_id r = g) (map (\<lambda>r. if guild_id r = g' then f r else r) rows)
   = (if g = g' then map_option f (find (\<lambda>r. guild_id r = g) rows) else find (\<lambda>r. guild_id r = g) rows)"
  if "\<And>r. guild_id (f r) = guild_id r"
  using that by (induction rows) auto

text \<open>
  Claim C10. For every community, \<^verbatim>\<open>updateGuildSettings\<close> with an empty partial fails with
  an error (the statement text has an empty SET list) instead of acting as a no-op, and
  the failed call leaves the store, and so the community's settings row, unchanged.
\<close>

theorem updateGuildSettings_empty_fails:
  "fst (updateGuildSettings guildId [] db) = Inl SqliteSyntaxError
   \<and> snd (updateGuildSettings guildId [] db) = db
   \<and> select_settings guildId (snd (updateGuildSettings guildId [] db)) = select_settings guildId db"
  by (simp add: updateGuildSettings_def)

lemma select_after_single_update:
  assumes "select_settings g db = Some r"
  shows "select_settings g (snd (updateGuildSettings g [u] db)) = Some (set_column u r)"
  using assms by (simp add: updateGuildSettings_def select_settings_def find_map_update)

lemma collect_store:
  "snd (snd (collect s i db)) =
     (if customId i = ''toggle_tracking''
      then snd (updateGuildSettings (s_guild s)
                 [SetEnabled (Some (if truthy (enabled (s_settings s)) then 0 else 1))] db)
      else if customId i = ''toggle_notifications''
      then snd (updateGuildSettings (s_guild s)
                 [SetNotificationsEnabled (Some (if truthy (notifications_enabled (s_settings s)) then 0 else 1))] db)
      else if customId i = ''set_log_channel''
      then snd (updateGuildSettings (s_guild s)
                 [SetLogChannelId (case ci_values i of [] \<Rightarrow> None | x # xs \<Rightarrow> Some x)] db)
      else db)"
  by (simp add: collect_def Let_def updateGuildSettings_def)

lemma collect_frame:
  assumes "select_settings (s_guild s) db = Some r"
  shows "\<exists>r'. select_settings (s_guild s) (snd (snd (collect s i db))) = Some r'
           \<and> guild_id r' = guild_id r
           \<and> tracked_channels r' = tracked_channels r
           \<and> (customId i \<noteq> ''toggle_tracking'' \<longrightarrow> enabled r' = enabled r)
           \<and> (customId i \<noteq> ''toggle_notifications'' \<longrightarrow> notifications_enabled r' = notifications_enabled r)
           \<and> (customId i \<noteq> ''set_log_channel'' \<longrightarrow> log_channel_id r' = log_channel_id r)"
  using assms
  by (simp add: collect_store select_after_single_update)

text \<open>
  Claim C4. For every community whose settings row exists and every partial update,
  \<^verbatim>\<open>updateGuildSettings\<close> changes only the fields named in the partial: the row is still
  the community's row, every column that the partial does not name keeps its prior value,
  every column that it names holds the assigned value, and the rows of other communities
  and the event tables are as before. An action that the settings session handles
  writes through this function and changes no column but the one it targets.
\<close>

theorem updateGuildSettings_frame:
  assumes "select_settings guildId db = Some r"
  shows "(\<exists>r'. select_settings guildId (snd (updateGuildSettings guildId updates db)) = Some r'
           \<and> guild_id r' = guild_id r
           \<and> (\<forall>c. c \<notin> column_of ` set updates \<longrightarrow> get_column c r' = get_column c r)
           \<and> (\<forall>a. distinct (map column_of updates) \<and> a \<in> set updates \<longrightarrow>
                  get_column (column_of a) r' = stored_value a))
       \<and> (\<forall>g. g \<noteq> guildId \<longrightarrow>
             select_settings g (snd (updateGuildSettings guildId updates db)) = select_settings g db)
       \<and> messages (snd (updateGuildSettings guildId updates db)) = messages db
       \<and> reactions (snd (updateGuildSettings guildId updates db)) = reactions db
       \<and> members (snd (updateGuildSettings guildId updates db)) = members db
       \<and> (s_guild s = guildId \<longrightarrow>
            (\<exists>r'. select_settings guildId (snd (snd (collect s i db))) = Some r'
               \<and> guild_id r' = guild_id r
               \<and> tracked_channels r' = tracked_channels r
               \<and> (customId i \<noteq> ''toggle_tracking'' \<longrightarrow> enabled r' = enabled r)
               \<and> (customId i \<noteq> ''toggle_notifications'' \<longrightarrow>
                     notifications_enabled r' = notifications_enabled r)
               \<and> (customId i \<noteq> ''set_log_channel'' \<longrightarrow> log_channel_id r' = log_channel_id r)))"
proof -
  have store: "(\<exists>r'. select_settings guildId (snd (updateGuildSettings guildId updates db)) = Some r'
           \<and> guild_id r' = guild_id r
           \<and> (\<forall>c. c \<notin> column_of ` set updates \<longrightarrow> get_column c r' = get_column c r)
           \<and> (\<forall>a. distinct (map column_of updates) \<and> a \<in> set updates \<longrightarrow>
                  get_column (column_of a) r' = stored_value a))
       \<and> (\<forall>g. g \<noteq> guildId \<longrightarrow>
             select_settings g (snd (updateGuildSettings guildId updates db)) = select_settings g db)
       \<and> messages (snd (updateGuildSettings guildId updates db)) = messages db
       \<and> reactions (snd (updateGuildSettings guildId updates db)) = reactions db
       \<and> members (snd (updateGuildSettings guildId updates db)) = members db"
  proof (cases "updates = []")
    case True
    with assms show ?thesis by (simp add: updateGuildSettings_def)
  next
    case False
    with assms show ?thesis
      by (simp add: updateGuildSettings_def select_settings_def find_map_update
            get_column_fold_other get_column_fold_last)
  qed
  have handler: "\<exists>r'. select_settings guildId (snd (snd (collect s i db))) = Some r'
               \<and> guild_id r' = guild_id r
               \<and> tracked_channels r' = tracked_channels r
               \<and> (customId i \<noteq> ''toggle_tracking'' \<longrightarrow> enabled r' = enabled r)
               \<and> (customId i \<noteq> ''toggle_notifications'' \<longrightarrow>
                     notifications_enabled r' = notifications_enabled r)
               \<and> (customId i \<noteq> ''set_log_channel'' \<longrightarrow> log_channel_id r' = log_channel_id r)"
    if "s_guild s = guildId"
    using collect_frame[of s db r i] assms that by simp
  from store handler show ?thesis by blast
qed

theorem updateGuildSettings_frame_witness:
  "select_settings ''g1'' (snd (getGuildSettings ''g1'' initDatabase)) = Some (default_row ''g1'')
   \<and> (\<exists>r'. select_settings ''g1''
              (snd (updateGuildSettings ''g1'' [SetEnabled (Some 0)] (snd (getGuildSettings ''g1'' initDatabase))))
            = Some r'
          \<and> enabled r' = Num 0
          \<and> log_channel_id r' = Null
          \<and> tracked_channels r' = Str ''[]''
          \<and> notifications_enabled r' = Num 1)"
proof -
  have s: "select_settings ''g1'' (snd (getGuildSettings ''g1'' initDatabase)) = Some (default_row ''g1'')"
    by (simp add: getGuildSettings_def select_settings_def insert_settings_def initDatabase_def default_row_def)
  from updateGuildSettings_frame[OF s, of "[SetEnabled (Some 0)]"]
  obtain r' where r: "select_settings ''g1''
              (snd (updateGuildSettings ''g1'' [SetEnabled (Some 0)] (snd (getGuildSettings ''g1'' initDatabase))))
            = Some r'"
    and keep: "\<forall>c. c \<notin> column_of ` set [SetEnabled (Some 0)] \<longrightarrow> get_column c r' = get_column c (default_row ''g1'')"
    and new: "\<forall>a. distinct (map column_of [SetEnabled (Some 0)]) \<and> a \<in> set [SetEnabled (Some 0)] \<longrightarrow>
                get_column (column_of a) r' = stored_value a"
    by blast
  from keep[rule_format, of LogChannelId] keep[rule_format, of TrackedChannels]
    keep[rule_format, of NotificationsEnabled] new[rule_format, of "SetEnabled (Some 0)"]
  have "enabled r' = Num 0 \<and> log_channel_id r' = Null \<and> tracked_channels r' = Str ''[]''
        \<and> notifications_enabled r' = Num 1"
    by (simp add: default_row_def)
  with s r show ?thesis by blast
qed

section \<open>One settings row for each community\<close>

lemma find_filter_Nil: "filter P xs = [] \<Longrightarrow> find P xs = None"
  by (induction xs) (auto split: if_splits)

lemma find_filter_single: "filter P xs = [x] \<Longrightarrow> find P xs = Some x"
  by (induction xs) (auto split: if_splits)

lemma list_ex_filter: "list_ex P xs \<longleftrightarrow> filter P xs \<noteq> []"
  by (induction xs) auto

lemma distinct_filter_le_1:
  "distinct (map f xs) \<Longrightarrow> length (filter (\<lambda>x. f x = k) xs) \<le> 1"
proof (induction xs)
  case Nil
  then show ?case by simp
next
  case (Cons x xs)
  show ?case
  proof (cases "f x = k")
    case True
    have "f x \<notin> f ` set xs" using Cons.prems by simp
    then have "\<forall>y\<in>set xs. f y \<noteq> k" using True by blast
    then have "filter (\<lambda>x. f x = k) xs = []"
      by (simp add: filter_empty_conv)
    with True show ?thesis by simp
  next
    case False
    with Cons show ?thesis by simp
  qed
qed

lemma one_row_init: "one_row_per_guild initDatabase"
  by (simp add: one_row_per_guild_def initDatabase_def)

lemma insert_settings_unique:
  "one_row_per_guild db \<Longrightarrow> insert_settings g db = Inr db' \<Longrightarrow> one_row_per_guild db'"
  by (auto simp: one_row_per_guild_def insert_settings_def default_row_def list_ex_iff split: if_splits)

lemma getGuildSettings_unique:
  "one_row_per_guild db \<Longrightarrow> one_row_per_guild (snd (getGuildSettings g db))"
  by (auto simp: getGuildSettings_def split: option.splits sum.splits dest: insert_settings_unique)

lemma updateGuildSettings_unique:
  "one_row_per_guild db \<Longrightarrow> one_row_per_guild (snd (updateGuildSettings g us db))"
proof -
  have "guild_id \<circ> (\<lambda>r. if guild_id r = g then fold set_column us r else r) = guild_id"
    by (rule ext) simp
  then show "one_row_per_guild db \<Longrightarrow> ?thesis"
    by (simp add: one_row_per_guild_def updateGuildSettings_def)
qed

lemma apply_operation_unique:
  "one_row_per_guild db \<Longrightarrow> one_row_per_guild (apply_operation op db)"
proof (cases op)
  case (GetGuildSettings g)
  then show "one_row_per_guild db \<Longrightarrow> ?thesis" by (simp add: getGuildSettings_unique)
next
  case (UpdateGuildSettings g us)
  then show "one_row_per_guild db \<Longrightarrow> ?thesis" by (simp add: updateGuildSettings_unique)
qed (simp_all add: one_row_per_guild_def trackMessage_def trackReaction_def trackMember_def)

lemma fold_operations_unique:
  "one_row_per_guild db \<Longrightarrow> one_row_per_guild (fold apply_operation ops db)"
  by (induction ops arbitrary: db) (auto simp: apply_operation_unique)

lemma getGuildSettings_new:
  assumes "select_settings g db = None"
  shows "getGuildSettings g db = (Inr (created_settings g), db\<lparr>guild_settings := guild_settings db @ [default_row g]\<rparr>)"
proof -
  have "\<not> list_ex (\<lambda>r. guild_id r = g) (guild_settings db)"
    using assms by (simp add: select_settings_def find_None_iff list_ex_iff)
  then show ?thesis
    using assms by (simp add: getGuildSettings_def insert_settings_def)
qed

lemma select_after_insert:
  assumes "select_settings g db = None"
  shows "select_settings g (db\<lparr>guild_settings := guild_settings db @ [default_row g]\<rparr>) = Some (default_row g)"
proof -
  have "find P (xs @ [x]) = Some x" if "find P xs = None" "P x" for P and xs :: "settings_row list" and x
    using that by (induction xs) (auto split: if_splits)
  from this[of "\<lambda>r. guild_id r = g" "guild_settings db" "default_row g"] assms
  show ?thesis by (simp add: select_settings_def default_row_def)
qed

lemma getGuildSettings_existing:
  assumes "select_settings g db = Some r"
  shows "getGuildSettings g db = (Inr r, db)"
  using assms by (simp add: getGuildSettings_def)

lemma select_Some_iff_list_ex:
  "select_settings g db \<noteq> None \<longleftrightarrow> list_ex (\<lambda>r. guild_id r = g) (guild_settings db)"
  by (auto simp: select_settings_def find_None_iff list_ex_iff)

lemma getGuildSettings_never_throws: "\<exists>settings. fst (getGuildSettings g db) = Inr settings"
proof (cases "select_settings g db")
  case None
  then show ?thesis by (simp add: getGuildSettings_new)
next
  case (Some r)
  then show ?thesis by (simp add: getGuildSettings_existing)
qed

lemma getGuildSettings_insert_if_absent:
  "snd (getGuildSettings g db) = spec_insert_if_absent g db"
proof (cases "select_settings g db")
  case None
  moreover from None have "\<not> list_ex (\<lambda>r. guild_id r = g) (guild_settings db)"
    using select_Some_iff_list_ex[of g db] by simp
  ultimately show ?thesis by (simp add: getGuildSettings_new spec_insert_if_absent_def)
next
  case (Some r)
  moreover from Some have "list_ex (\<lambda>r. guild_id r = g) (guild_settings db)"
    using select_Some_iff_list_ex[of g db] by simp
  ultimately show ?thesis by (simp add: getGuildSettings_existing spec_insert_if_absent_def)
qed

lemma has_row_after_get:
  "list_ex (\<lambda>r. guild_id r = g) (guild_settings (snd (getGuildSettings g db)))"
  by (auto simp: getGuildSettings_insert_if_absent spec_insert_if_absent_def default_row_def list_ex_iff)

lemma has_row_kept:
  assumes "list_ex (\<lambda>r. guild_id r = g) (guild_settings db)"
  shows "list_ex (\<lambda>r. guild_id r = g) (guild_settings (apply_operation op db))"
proof (cases op)
  case (GetGuildSettings g')
  with assms show ?thesis
    by (auto simp: getGuildSettings_insert_if_absent spec_insert_if_absent_def list_ex_iff)
next
  case (UpdateGuildSettings g' us)
  have m: "map guild_id (map (\<lambda>r. if guild_id r = g' then fold set_column us r else r) rows)
            = map guild_id rows" for rows
    by (induction rows) simp_all
  have l: "list_ex (\<lambda>r. guild_id r = g) rows \<longleftrightarrow> g \<in> set (map guild_id rows)" for rows
    by (auto simp: list_ex_iff)
  have "map guild_id (guild_settings (snd (updateGuildSettings g' us db))) = map guild_id (guild_settings db)"
    using m[of "guild_settings db"] by (simp add: updateGuildSettings_def del: map_map)
  with assms show ?thesis
    unfolding UpdateGuildSettings apply_operation.simps l by simp
qed (use assms in \<open>simp_all add: trackMessage_def trackReaction_def trackMember_def\<close>)

lemma has_row_fold:
  "list_ex (\<lambda>r. guild_id r = g) (guild_settings db)
     \<Longrightarrow> list_ex (\<lambda>r. guild_id r = g) (guild_settings (fold apply_operation ops db))"
proof (induction ops arbitrary: db)
  case Nil
  then show ?case by simp
next
  case (Cons op ops)
  from Cons.prems have "list_ex (\<lambda>r. guild_id r = g) (guild_settings (apply_operation op db))"
    by (rule has_row_kept)
  from Cons.IH[OF this] show ?case by simp
qed

lemma has_row_after_some_get:
  assumes "GetGuildSettings g \<in> set ops"
  shows "list_ex (\<lambda>r. guild_id r = g) (guild_settings (fold apply_operation ops db))"
  using assms
proof (induction ops arbitrary: db)
  case Nil
  then show ?case by simp
next
  case (Cons op ops)
  show ?case
  proof (cases "op = GetGuildSettings g")
    case True
    have "list_ex (\<lambda>r. guild_id r = g) (guild_settings (apply_operation op db))"
      unfolding True by (simp add: has_row_after_get)
    from has_row_fold[OF this] show ?thesis by simp
  next
    case False
    with Cons.prems have "GetGuildSettings g \<in> set ops" by simp
    from Cons.IH[OF this] show ?thesis by simp
  qed
qed

lemma one_row_exactly:
  assumes "one_row_per_guild db" and "list_ex (\<lambda>r. guild_id r = g) (guild_settings db)"
  shows "settings_rows g db = 1"
proof -
  have "settings_rows g db \<le> 1"
    using assms(1) unfolding one_row_per_guild_def settings_rows_def by (rule distinct_filter_le_1)
  moreover have "filter (\<lambda>r. guild_id r = g) (guild_settings db) \<noteq> []"
    using assms(2) by (simp add: list_ex_filter)
  then have "settings_rows g db \<noteq> 0"
    by (simp add: settings_rows_def)
  ultimately show ?thesis by simp
qed

text \<open>
  Claim C1. The settings table never holds two rows of one community, and every operation
  of the store and every sequence of operations keeps it so. \<^verbatim>\<open>getGuildSettings\<close> never
  throws and changes the store exactly as one atomic insert-if-absent does. After a call
  the community has exactly one row, and a second call returns that row and creates
  none. For a new community the first call takes the table from no row to one, the
  default row, and the next caller reads that row back (the first writer wins). However
  many first calls race, in whatever order they are served and whatever other operations
  run between them, the community ends with exactly one row.
\<close>

theorem settings_at_most_one_row:
  assumes "one_row_per_guild db"
  shows "one_row_per_guild (apply_operation op db)
       \<and> one_row_per_guild (fold apply_operation ops db)
       \<and> settings_rows g' (fold apply_operation ops db) \<le> 1
       \<and> (\<exists>settings. fst (getGuildSettings g db) = Inr settings)
       \<and> snd (getGuildSettings g db) = spec_insert_if_absent g db
       \<and> settings_rows g (snd (getGuildSettings g db)) = 1
       \<and> (\<exists>r. select_settings g (snd (getGuildSettings g db)) = Some r
              \<and> getGuildSettings g (snd (getGuildSettings g db)) = (Inr r, snd (getGuildSettings g db)))
       \<and> (select_settings g db = None \<longrightarrow>
            settings_rows g db = 0
          \<and> select_settings g (snd (getGuildSettings g db)) = Some (default_row g)
          \<and> getGuildSettings g (snd (getGuildSettings g db))
               = (Inr (default_row g), snd (getGuildSettings g db)))
       \<and> (GetGuildSettings g \<in> set ops \<longrightarrow> settings_rows g (fold apply_operation ops db) = 1)"
proof -
  have inv: "one_row_per_guild (fold apply_operation ops db)"
    using assms by (rule fold_operations_unique)
  have a: "one_row_per_guild (apply_operation op db)"
    using assms by (rule apply_operation_unique)
  have b: "settings_rows g' (fold apply_operation ops db) \<le> 1"
    using inv unfolding one_row_per_guild_def settings_rows_def by (rule distinct_filter_le_1)
  have c: "settings_rows g (snd (getGuildSettings g db)) = 1"
    using getGuildSettings_unique[OF assms] has_row_after_get by (rule one_row_exactly)
  obtain r where r: "select_settings g (snd (getGuildSettings g db)) = Some r"
    using has_row_after_get[of g db] select_Some_iff_list_ex[of g "snd (getGuildSettings g db)"] by blast
  have d: "\<exists>r. select_settings g (snd (getGuildSettings g db)) = Some r
              \<and> getGuildSettings g (snd (getGuildSettings g db)) = (Inr r, snd (getGuildSettings g db))"
    using getGuildSettings_existing[OF r] r by simp
  have e: "settings_rows g db = 0
          \<and> select_settings g (snd (getGuildSettings g db)) = Some (default_row g)
          \<and> getGuildSettings g (snd (getGuildSettings g db))
               = (Inr (default_row g), snd (getGuildSettings g db))"
    if none: "select_settings g db = None"
  proof -
    have "settings_rows g db = 0"
      using none by (simp add: settings_rows_def select_settings_def find_None_iff filter_empty_conv)
    moreover have s: "select_settings g (snd (getGuildSettings g db)) = Some (default_row g)"
      by (simp add: getGuildSettings_new[OF none] select_after_insert[OF none])
    moreover have "getGuildSettings g (snd (getGuildSettings g db))
               = (Inr (default_row g), snd (getGuildSettings g db))"
      using s by (rule getGuildSettings_existing)
    ultimately show ?thesis by blast
  qed
  have f: "settings_rows g (fold apply_operation ops db) = 1" if "GetGuildSettings g \<in> set ops"
    using inv has_row_after_some_get[OF that] by (rule one_row_exactly)
  from a inv b getGuildSettings_never_throws[of g db] getGuildSettings_insert_if_absent[of g db] c d e f
  show ?thesis by blast
qed

theorem settings_at_most_one_row_witness:
  "one_row_per_guild initDatabase
   \<and> select_settings ''g1'' initDatabase = None
   \<and> settings_rows ''g1'' (snd (getGuildSettings ''g1'' initDatabase)) = 1
   \<and> getGuildSettings ''g1'' (snd (getGuildSettings ''g1'' initDatabase))
        = (Inr (default_row ''g1''), snd (getGuildSettings ''g1'' initDatabase))
   \<and> settings_rows ''g1''
        (fold apply_operation
           [GetGuildSettings ''g1'', TrackMessage ''g1'' ''u1'' ''c1'' 5 1000, GetGuildSettings ''g2'',
            GetGuildSettings ''g1'', UpdateGuildSettings ''g1'' [SetEnabled (Some 0)], GetGuildSettings ''g1'']
           initDatabase) = 1"
proof -
  have u: "one_row_per_guild initDatabase" by (rule one_row_init)
  have n: "select_settings ''g1'' initDatabase = None"
    by (simp add: select_settings_def initDatabase_def)
  note t = settings_at_most_one_row[OF u, of "GetGuildSettings ''g1''"
      "[GetGuildSettings ''g1'', TrackMessage ''g1'' ''u1'' ''c1'' 5 1000, GetGuildSettings ''g2'',
        GetGuildSettings ''g1'', UpdateGuildSettings ''g1'' [SetEnabled (Some 0)], GetGuildSettings ''g1'']"
      "''g1''" "''g1''"]
  from t have a: "settings_rows ''g1'' (snd (getGuildSettings ''g1'' initDatabase)) = 1"
    by blast
  from t n have b: "getGuildSettings ''g1'' (snd (getGuildSettings ''g1'' initDatabase))
        = (Inr (default_row ''g1''), snd (getGuildSettings ''g1'' initDatabase))"
    by blast
  from t have "GetGuildSettings ''g1'' \<in> set [GetGuildSettings ''g1'', TrackMessage ''g1'' ''u1'' ''c1'' 5 1000, GetGuildSettings ''g2'',
        GetGuildSettings ''g1'', UpdateGuildSettings ''g1'' [SetEnabled (Some 0)], GetGuildSettings ''g1'']
    \<longrightarrow> settings_rows ''g1''
        (fold apply_operation
           [GetGuildSettings ''g1'', TrackMessage ''g1'' ''u1'' ''c1'' 5 1000, GetGuildSettings ''g2'',
            GetGuildSettings ''g1'', UpdateGuildSettings ''g1'' [SetEnabled (Some 0)], GetGuildSettings ''g1'']
           initDatabase) = 1"
    by blast
  then have c: "settings_rows ''g1''
        (fold apply_operation
           [GetGuildSettings ''g1'', TrackMessage ''g1'' ''u1'' ''c1'' 5 1000, GetGuildSettings ''g2'',
            GetGuildSettings ''g1'', UpdateGuildSettings ''g1'' [SetEnabled (Some 0)], GetGuildSettings ''g1'']
           initDatabase) = 1"
    by simp
  from u n a b c show ?thesis by blast
qed

section \<open>The first and the second read of new settings\<close>

text \<open>
  For a community without a row, the first call returns the object literal of the create
  path and the second the stored row. The two agree on every field but one: the literal
  has no \<^verbatim>\<open>log_channel_id\<close>, the row has it as \<^verbatim>\<open>null\<close>.
\<close>

lemma getGuildSettings_first_second:
  assumes "select_settings g db = None"
  shows "fst (getGuildSettings g db) = Inr (created_settings g)
       \<and> fst (getGuildSettings g (snd (getGuildSettings g db))) = Inr (default_row g)
       \<and> created_settings g = (default_row g)\<lparr>log_channel_id := Undefined\<rparr>
       \<and> log_channel_id (default_row g) = Null"
proof -
  have f: "fst (getGuildSettings g db) = Inr (created_settings g)"
    by (simp add: getGuildSettings_new[OF assms])
  have s: "fst (getGuildSettings g (snd (getGuildSettings g db))) = Inr (default_row g)"
    by (simp add: getGuildSettings_new[OF assms] getGuildSettings_existing[OF select_after_insert[OF assms]])
  show ?thesis
    unfolding f s by (simp add: created_settings_def default_row_def)
qed

text \<open>
  Claim C9 says that, for a brand-new community, the value of the first call equals the
  value of an immediately following second call, report-channel field included. On the
  empty store the first call returns an object without \<^verbatim>\<open>log_channel_id\<close> (it reads
  \<^verbatim>\<open>undefined\<close>) and the second the row with \<^verbatim>\<open>log_channel_id\<close> \<^verbatim>\<open>null\<close>: the create path
  leaves out the column that the read path returns.
\<close>

theorem getGuildSettings_first_second_differ:
  "fst (getGuildSettings ''g1'' initDatabase)
     = Inr \<lparr>guild_id = ''g1'', enabled = Num 1, log_channel_id = Undefined,
            tracked_channels = Str ''[]'', notifications_enabled = Num 1\<rparr>
   \<and> fst (getGuildSettings ''g1'' (snd (getGuildSettings ''g1'' initDatabase)))
     = Inr \<lparr>guild_id = ''g1'', enabled = Num 1, log_channel_id = Null,
            tracked_channels = Str ''[]'', notifications_enabled = Num 1\<rparr>
   \<and> fst (getGuildSettings ''g1'' initDatabase)
     \<noteq> fst (getGuildSettings ''g1'' (snd (getGuildSettings ''g1'' initDatabase)))"
  by (simp add: getGuildSettings_def select_settings_def insert_settings_def initDatabase_def
        default_row_def created_settings_def)

section \<open>Recording and its gate\<close>

lemma select_after_disable:
  assumes "select_settings g db = Some r"
  shows "select_settings g (snd (updateGuildSettings g [SetEnabled (Some 0)] db)) = Some (r\<lparr>enabled := Num 0\<rparr>)"
  using assms by (simp add: updateGuildSettings_def select_settings_def find_map_update)

text \<open>
  Claim C8. \<^verbatim>\<open>trackMessage\<close> appends its row whatever the settings say: also in the store
  left by \<^verbatim>\<open>updateGuildSettings\<close> with \<^verbatim>\<open>enabled\<close> set to 0, a direct call records the
  event. The gate is in the message listener, which ignores bots and messages without a
  guild, reads the settings and records exactly when \<^verbatim>\<open>enabled\<close> is truthy and the tracked
  set is empty or holds the channel; after tracking has been disabled the listener
  records nothing.
\<close>

theorem trackMessage_unconditional:
  "messages (trackMessage g u c n now db)
     = messages db @ [\<lparr>m_guild_id = g, m_user_id = u, m_channel_id = c, m_message_length = n, m_timestamp = now\<rparr>]
   \<and> messages (trackMessage g u c n now (snd (updateGuildSettings g [SetEnabled (Some 0)] db)))
     = messages db @ [\<lparr>m_guild_id = g, m_user_id = u, m_channel_id = c, m_message_length = n, m_timestamp = now\<rparr>]
   \<and> (author_bot message \<or> msg_guild message = None \<longrightarrow> onMessageCreate parse message now db = (Inr (), db))
   \<and> (\<not> author_bot message \<and> msg_guild message = Some g \<and> select_settings g db = Some r \<longrightarrow>
        messages (snd (onMessageCreate parse message now db))
          = (if truthy (enabled r)
                \<and> (case parse (or_empty_array (tracked_channels r)) of
                      None \<Rightarrow> False
                    | Some trackedChannels \<Rightarrow> trackedChannels = [] \<or> msg_channel message \<in> set trackedChannels)
             then messages db @ [\<lparr>m_guild_id = g, m_user_id = msg_author message,
                                  m_channel_id = msg_channel message,
                                  m_message_length = content_length message, m_timestamp = now\<rparr>]
             else messages db))
   \<and> (\<not> author_bot message \<and> msg_guild message = Some g \<and> select_settings g db = None
        \<and> parse (Str ''[]'') = Some [] \<longrightarrow>
        messages (snd (onMessageCreate parse message now db))
          = messages db @ [\<lparr>m_guild_id = g, m_user_id = msg_author message,
                               m_channel_id = msg_channel message,
                               m_message_length = content_length message, m_timestamp = now\<rparr>])
   \<and> (msg_guild message = Some g \<and> select_settings g db = Some r \<longrightarrow>
        messages (snd (onMessageCreate parse message now (snd (updateGuildSettings g [SetEnabled (Some 0)] db))))
          = messages db)"
proof -
  have a: "messages (trackMessage g u c n now db)
     = messages db @ [\<lparr>m_guild_id = g, m_user_id = u, m_channel_id = c, m_message_length = n, m_timestamp = now\<rparr>]"
    for db
    by (simp add: trackMessage_def)
  have b: "messages (snd (updateGuildSettings g [SetEnabled (Some 0)] db)) = messages db"
    by (simp add: updateGuildSettings_def)
  have c: "onMessageCreate parse message now db = (Inr (), db)"
    if "author_bot message \<or> msg_guild message = None"
    using that by (auto simp: onMessageCreate_def)
  have d: "messages (snd (onMessageCreate parse message now db))
          = (if truthy (enabled r)
                \<and> (case parse (or_empty_array (tracked_channels r)) of
                      None \<Rightarrow> False
                    | Some trackedChannels \<Rightarrow> trackedChannels = [] \<or> msg_channel message \<in> set trackedChannels)
             then messages db @ [\<lparr>m_guild_id = g, m_user_id = msg_author message,
                                  m_channel_id = msg_channel message,
                                  m_message_length = content_length message, m_timestamp = now\<rparr>]
             else messages db)"
    if "\<not> author_bot message" "msg_guild message = Some g" "select_settings g db = Some r"
    using that
    by (auto simp: onMessageCreate_def getGuildSettings_existing trackMessage_def split: option.splits)
  have e: "messages (snd (onMessageCreate parse message now (snd (updateGuildSettings g [SetEnabled (Some 0)] db))))
          = messages db"
    if "msg_guild message = Some g" "select_settings g db = Some r"
    using that b
    by (simp add: onMessageCreate_def getGuildSettings_existing[OF select_after_disable])
  have f: "messages (snd (onMessageCreate parse message now db))
          = messages db @ [\<lparr>m_guild_id = g, m_user_id = msg_author message,
                               m_channel_id = msg_channel message,
                               m_message_length = content_length message, m_timestamp = now\<rparr>]"
    if "\<not> author_bot message" "msg_guild message = Some g" "select_settings g db = None"
      "parse (Str ''[]'') = Some []"
    using that
    by (simp add: onMessageCreate_def getGuildSettings_new created_settings_def or_empty_array_def
          trackMessage_def)
  from a b c d e f show ?thesis by simp
qed

theorem trackMessage_unconditional_witness:
  "select_settings ''g1'' (snd (getGuildSettings ''g1'' initDatabase)) = Some (default_row ''g1'')
   \<and> messages (snd (onMessageCreate (\<lambda>v. if v = Str ''[]'' then Some [] else None)
         \<lparr>author_bot = False, msg_guild = Some ''g1'', msg_author = ''u1'', msg_channel = ''c1'', content_length = 5\<rparr>
         1000 (snd (getGuildSettings ''g1'' initDatabase))))
      = [\<lparr>m_guild_id = ''g1'', m_user_id = ''u1'', m_channel_id = ''c1'', m_message_length = 5, m_timestamp = 1000\<rparr>]
   \<and> messages (snd (onMessageCreate (\<lambda>v. if v = Str ''[]'' then Some [] else None)
         \<lparr>author_bot = False, msg_guild = Some ''g1'', msg_author = ''u1'', msg_channel = ''c1'', content_length = 5\<rparr>
         1000 (snd (updateGuildSettings ''g1'' [SetEnabled (Some 0)] (snd (getGuildSettings ''g1'' initDatabase))))))
      = []
   \<and> messages (trackMessage ''g1'' ''u1'' ''c1'' 5 1000
         (snd (updateGuildSettings ''g1'' [SetEnabled (Some 0)] (snd (getGuildSettings ''g1'' initDatabase)))))
      = [\<lparr>m_guild_id = ''g1'', m_user_id = ''u1'', m_channel_id = ''c1'', m_message_length = 5, m_timestamp = 1000\<rparr>]"
proof -
  have s: "select_settings ''g1'' (snd (getGuildSettings ''g1'' initDatabase)) = Some (default_row ''g1'')"
    by (simp add: getGuildSettings_def select_settings_def insert_settings_def initDatabase_def default_row_def)
  have m: "messages (snd (getGuildSettings ''g1'' initDatabase)) = []"
    by (simp add: getGuildSettings_def select_settings_def insert_settings_def initDatabase_def)
  note t = trackMessage_unconditional[of "''g1''" "''u1''" "''c1''" 5 1000 "snd (getGuildSettings ''g1'' initDatabase)"
      "\<lparr>author_bot = False, msg_guild = Some ''g1'', msg_author = ''u1'', msg_channel = ''c1'', content_length = 5\<rparr>"
      "\<lambda>v. if v = Str ''[]'' then Some [] else None" "default_row ''g1''"]
  from t s m show ?thesis
    by (simp add: default_row_def or_empty_array_def)
qed

section \<open>Rankings and windows\<close>

lemma group_count_set:
  "(k, c) \<in> set (group_count key rows) \<longleftrightarrow> k \<in> key ` set rows \<and> c = length (filter (\<lambda>r. key r = k) rows)"
  by (auto simp: group_count_def)

lemma group_count_distinct: "distinct (map fst (group_count key rows))"
  by (simp add: group_count_def comp_def)

lemma group_count_length: "length (group_count key rows) = card (key ` set rows)"
  by (simp add: group_count_def length_remdups_card_conv)

lemma group_count_positive:
  assumes "(k, c) \<in> set (group_count key rows)"
  shows "c \<ge> 1"
proof -
  from assms obtain r where "r \<in> set rows" "key r = k" and c: "c = length (filter (\<lambda>r. key r = k) rows)"
    by (auto simp: group_count_set)
  then have "filter (\<lambda>r. key r = k) rows \<noteq> []"
    by (auto simp: filter_empty_conv)
  with c show ?thesis by (cases "filter (\<lambda>r. key r = k) rows") auto
qed

text \<open>What an engine's ORDER BY count DESC does to a list of groups, whatever it does with ties.\<close>

lemma ordered_distinct:
  assumes "distinct (map fst gs)" and "set xs = set gs" and "length xs = length gs"
  shows "distinct (map fst xs)"
proof -
  from assms(1) have dg: "distinct gs" and inj: "inj_on fst (set gs)"
    by (simp_all add: distinct_map)
  have "card (set xs) = length xs"
    using dg assms(2,3) by (simp add: distinct_card)
  then have "distinct xs" by (rule card_distinct)
  with inj assms(2) show ?thesis by (simp add: distinct_map)
qed

lemma take_dominates:
  assumes srt: "sorted_wrt (\<lambda>p q. snd p \<ge> snd q) xs"
    and p: "p \<in> set xs" "p \<notin> set (take n xs)"
  shows "length (take n xs) = n \<and> (\<forall>q \<in> set (take n xs). snd p \<le> snd q)"
proof -
  from p(1) obtain i where i: "i < length xs" "xs ! i = p" by (metis in_set_conv_nth)
  have ni: "\<not> i < n"
  proof
    assume "i < n"
    with i have "p \<in> set (take n xs)"
      by (auto simp: in_set_conv_nth intro!: exI[of _ i])
    with p(2) show False by simp
  qed
  with i have len: "length (take n xs) = n" by simp
  have "snd p \<le> snd q" if "q \<in> set (take n xs)" for q
  proof -
    from that obtain j where j: "j < length (take n xs)" "take n xs ! j = q"
      by (metis in_set_conv_nth)
    then have "j < n" "j < length xs" "xs ! j = q" by auto
    with ni have "j < i" by simp
    with srt i \<open>xs ! j = q\<close> show ?thesis
      by (auto simp: sorted_wrt_iff_nth_less)
  qed
  with len show ?thesis by blast
qed

lemma top10_properties:
  fixes key :: "message_row \<Rightarrow> string"
  assumes ord: "\<forall>gs. distinct (map fst gs) \<longrightarrow>
            set (order_by gs) = set gs \<and> length (order_by gs) = length gs
            \<and> sorted_wrt (\<lambda>p q. snd p \<ge> snd q) (order_by gs)"
    and rk: "ranking = top10 order_by (group_count key rows)"
  shows "length ranking = min 10 (card (key ` set rows))"
    and "sorted_wrt (\<lambda>p q. snd p \<ge> snd q) ranking"
    and "distinct (map fst ranking)"
    and "\<forall>k c. (k, c) \<in> set ranking \<longrightarrow>
           c = length (filter (\<lambda>r. key r = k) rows) \<and> c \<ge> 1 \<and> k \<in> key ` set rows"
    and "\<forall>k. k \<in> key ` set rows \<and> k \<notin> fst ` set ranking \<longrightarrow>
           length ranking = 10 \<and> (\<forall>(k', c) \<in> set ranking. length (filter (\<lambda>r. key r = k) rows) \<le> c)"
proof -
  let ?gs = "group_count key rows"
  let ?xs = "order_by ?gs"
  from ord[rule_format, OF group_count_distinct[of key rows]]
  have st: "set ?xs = set ?gs" and ln: "length ?xs = length ?gs"
    and srt: "sorted_wrt (\<lambda>p q. snd p \<ge> snd q) ?xs" by simp_all
  have ranking: "ranking = take 10 ?xs" by (simp add: rk top10_def)
  show "length ranking = min 10 (card (key ` set rows))"
    by (simp add: ranking ln group_count_length min.commute)
  show "sorted_wrt (\<lambda>p q. snd p \<ge> snd q) ranking"
    unfolding ranking using srt by (rule sorted_wrt_take)
  have "distinct (map fst ?xs)"
    using group_count_distinct st ln by (rule ordered_distinct)
  then show "distinct (map fst ranking)"
    unfolding ranking by (simp add: take_map[symmetric])
  have "c = length (filter (\<lambda>r. key r = k) rows) \<and> c \<ge> 1 \<and> k \<in> key ` set rows"
    if "(k, c) \<in> set ranking" for k c
  proof -
    from that have "(k, c) \<in> set ?xs" unfolding ranking by (rule in_set_takeD)
    with st have g: "(k, c) \<in> set ?gs" by simp
    with group_count_positive[OF g] show ?thesis by (simp add: group_count_set)
  qed
  then show "\<forall>k c. (k, c) \<in> set ranking \<longrightarrow>
           c = length (filter (\<lambda>r. key r = k) rows) \<and> c \<ge> 1 \<and> k \<in> key ` set rows"
    by blast
  have "length ranking = 10 \<and> (\<forall>(k', c) \<in> set ranking. length (filter (\<lambda>r. key r = k) rows) \<le> c)"
    if k: "k \<in> key ` set rows" "k \<notin> fst ` set ranking" for k
  proof -
    let ?p = "(k, length (filter (\<lambda>r. key r = k) rows))"
    from k(1) have "?p \<in> set ?gs" by (simp add: group_count_set)
    with st have "?p \<in> set ?xs" by simp
    moreover from k(2) have "?p \<notin> set (take 10 ?xs)"
      unfolding ranking by force
    ultimately have "length (take 10 ?xs) = 10 \<and> (\<forall>q \<in> set (take 10 ?xs). snd ?p \<le> snd q)"
      by (rule take_dominates[OF srt])
    then show ?thesis unfolding ranking by auto
  qed
  then show "\<forall>k. k \<in> key ` set rows \<and> k \<notin> fst ` set ranking \<longrightarrow>
           length ranking = 10 \<and> (\<forall>(k', c) \<in> set ranking. length (filter (\<lambda>r. key r = k) rows) \<le> c)"
    by blast
qed

lemma sort_key_orders:
  "set (sort_key (\<lambda>p. - int (snd p)) gs) = set gs
   \<and> length (sort_key (\<lambda>p. - int (snd p)) gs) = length gs
   \<and> sorted_wrt (\<lambda>p q. snd p \<ge> snd q) (sort_key (\<lambda>p. - int (snd p)) gs)"
proof -
  have "sorted (map (\<lambda>p. - int (snd p)) (sort_key (\<lambda>p. - int (snd p)) gs))"
    by (rule sorted_sort_key)
  then have "sorted_wrt (\<lambda>p q. - int (snd p) \<le> - int (snd q)) (sort_key (\<lambda>p. - int (snd p)) gs)"
    by (simp add: sorted_map)
  then show ?thesis by simp
qed

text \<open>
  Claim C5. Whatever the engine does with equal counts, for every community, window and
  event log \<^verbatim>\<open>topUsers\<close> and \<^verbatim>\<open>topChannels\<close> of \<^verbatim>\<open>getAnalytics\<close> each have at most 10 entries,
  as many as there are authors (channels) with a message in the window when these are
  fewer than 10; their counts do not increase along the sequence; no identifier occurs
  twice; every entry's count is the number of that author's (that channel's) messages
  of the community inside the window, which is at least one; and an author (a channel)
  with a message in the window that is left out has no more messages than any entry,
  and is left out only of a list of 10.
\<close>

theorem getAnalytics_top:
  assumes "\<forall>gs. distinct (map fst gs) \<longrightarrow>
            set (order_by gs) = set gs \<and> length (order_by gs) = length gs
            \<and> sorted_wrt (\<lambda>p q. snd p \<ge> snd q) (order_by gs)"
  shows "length (topUsers (getAnalytics order_by now guildId period db)) \<le> 10
   \<and> length (topChannels (getAnalytics order_by now guildId period db)) \<le> 10
   \<and> length (topUsers (getAnalytics order_by now guildId period db))
       = min 10 (card (m_user_id ` {m \<in> set (messages db). in_window guildId (now - timeRange period) m}))
   \<and> length (topChannels (getAnalytics order_by now guildId period db))
       = min 10 (card (m_channel_id ` {m \<in> set (messages db). in_window guildId (now - timeRange period) m}))
   \<and> sorted_wrt (\<lambda>p q. snd p \<ge> snd q) (topUsers (getAnalytics order_by now guildId period db))
   \<and> sorted_wrt (\<lambda>p q. snd p \<ge> snd q) (topChannels (getAnalytics order_by now guildId period db))
   \<and> distinct (map fst (topUsers (getAnalytics order_by now guildId period db)))
   \<and> distinct (map fst (topChannels (getAnalytics order_by now guildId period db)))
   \<and> (\<forall>(u, c) \<in> set (topUsers (getAnalytics order_by now guildId period db)).
        c = length (filter (\<lambda>m. in_window guildId (now - timeRange period) m \<and> m_user_id m = u) (messages db))
      \<and> c \<ge> 1
      \<and> (\<exists>m \<in> set (messages db). in_window guildId (now - timeRange period) m \<and> m_user_id m = u))
   \<and> (\<forall>(ch, c) \<in> set (topChannels (getAnalytics order_by now guildId period db)).
        c = length (filter (\<lambda>m. in_window guildId (now - timeRange period) m \<and> m_channel_id m = ch) (messages db))
      \<and> c \<ge> 1
      \<and> (\<exists>m \<in> set (messages db). in_window guildId (now - timeRange period) m \<and> m_channel_id m = ch))
   \<and> (\<forall>u. (\<exists>m \<in> set (messages db). in_window guildId (now - timeRange period) m \<and> m_user_id m = u)
          \<and> u \<notin> fst ` set (topUsers (getAnalytics order_by now guildId period db)) \<longrightarrow>
        length (topUsers (getAnalytics order_by now guildId period db)) = 10
      \<and> (\<forall>(u', c) \<in> set (topUsers (getAnalytics order_by now guildId period db)).
           length (filter (\<lambda>m. in_window guildId (now - timeRange period) m \<and> m_user_id m = u) (messages db)) \<le> c))
   \<and> (\<forall>ch. (\<exists>m \<in> set (messages db). in_window guildId (now - timeRange period) m \<and> m_channel_id m = ch)
          \<and> ch \<notin> fst ` set (topChannels (getAnalytics order_by now guildId period db)) \<longrightarrow>
        length (topChannels (getAnalytics order_by now guildId period db)) = 10
      \<and> (\<forall>(ch', c) \<in> set (topChannels (getAnalytics order_by now guildId period db)).
           length (filter (\<lambda>m. in_window guildId (now - timeRange period) m \<and> m_channel_id m = ch) (messages db)) \<le> c))"
proof -
  define rows where "rows = filter (in_window guildId (now - timeRange period)) (messages db)"
  have tu: "topUsers (getAnalytics order_by now guildId period db) = top10 order_by (group_count m_user_id rows)"
    and tc: "topChannels (getAnalytics order_by now guildId period db) = top10 order_by (group_count m_channel_id rows)"
    by (simp_all add: getAnalytics_def rows_def Let_def)
  have sr: "set rows = {m \<in> set (messages db). in_window guildId (now - timeRange period) m}"
    by (auto simp: rows_def)
  have cnt: "length (filter (\<lambda>r. key r = k) rows)
        = length (filter (\<lambda>m. in_window guildId (now - timeRange period) m \<and> key m = k) (messages db))"
    for key :: "message_row \<Rightarrow> string" and k
    by (simp add: rows_def)
  have has: "k \<in> key ` set rows \<longleftrightarrow>
        (\<exists>m \<in> set (messages db). in_window guildId (now - timeRange period) m \<and> key m = k)"
    for key :: "message_row \<Rightarrow> string" and k
    by (auto simp: sr)
  note p = top10_properties[OF assms refl, where rows = rows]
  have A: "length (top10 order_by (group_count key rows)) \<le> 10"
    for key :: "message_row \<Rightarrow> string"
    by (simp add: top10_def)
  have B: "length (top10 order_by (group_count key rows))
         = min 10 (card (key ` {m \<in> set (messages db). in_window guildId (now - timeRange period) m}))"
    for key :: "message_row \<Rightarrow> string"
    using p(1)[of key] by (simp add: sr)
  have S: "sorted_wrt (\<lambda>p q. snd p \<ge> snd q) (top10 order_by (group_count key rows))"
    for key :: "message_row \<Rightarrow> string"
    by (rule p(2))
  have D: "distinct (map fst (top10 order_by (group_count key rows)))"
    for key :: "message_row \<Rightarrow> string"
    by (rule p(3))
  have C: "\<forall>(k, c) \<in> set (top10 order_by (group_count key rows)).
           c = length (filter (\<lambda>m. in_window guildId (now - timeRange period) m \<and> key m = k) (messages db))
         \<and> c \<ge> 1
         \<and> (\<exists>m \<in> set (messages db). in_window guildId (now - timeRange period) m \<and> key m = k)"
    for key :: "message_row \<Rightarrow> string"
  proof (intro ballI, clarify)
    fix k c
    assume "(k, c) \<in> set (top10 order_by (group_count key rows))"
    from p(4)[rule_format, OF this] show "c = length (filter (\<lambda>m. in_window guildId (now - timeRange period) m \<and> key m = k) (messages db))
         \<and> c \<ge> 1
         \<and> (\<exists>m \<in> set (messages db). in_window guildId (now - timeRange period) m \<and> key m = k)"
      by (simp add: cnt has)
  qed
  have M: "\<forall>k. (\<exists>m \<in> set (messages db). in_window guildId (now - timeRange period) m \<and> key m = k)
             \<and> k \<notin> fst ` set (top10 order_by (group_count key rows)) \<longrightarrow>
           length (top10 order_by (group_count key rows)) = 10
         \<and> (\<forall>(k', c) \<in> set (top10 order_by (group_count key rows)).
              length (filter (\<lambda>m. in_window guildId (now - timeRange period) m \<and> key m = k) (messages db)) \<le> c)"
    for key :: "message_row \<Rightarrow> string"
  proof (intro allI impI, elim conjE)
    fix k
    assume "\<exists>m \<in> set (messages db). in_window guildId (now - timeRange period) m \<and> key m = k"
      and n: "k \<notin> fst ` set (top10 order_by (group_count key rows))"
    then have "k \<in> key ` set rows" by (simp only: has)
    from p(5)[rule_format, OF conjI[OF this n]] show "length (top10 order_by (group_count key rows)) = 10
         \<and> (\<forall>(k', c) \<in> set (top10 order_by (group_count key rows)).
              length (filter (\<lambda>m. in_window guildId (now - timeRange period) m \<and> key m = k) (messages db)) \<le> c)"
      by (simp add: cnt)
  qed
  show ?thesis
    unfolding tu tc by (intro conjI A B S D C M)
qed

theorem getAnalytics_top_witness:
  "topUsers (getAnalytics (sort_key (\<lambda>p. - int (snd p))) 1700000400000 ''g1'' ''week''
      (trackMessage ''g1'' ''u2'' ''c1'' 4 1700000300000
        (trackMessage ''g1'' ''u1'' ''c2'' 9 1700000200000
          (trackMessage ''g1'' ''u1'' ''c1'' 5 1700000100000
            (trackMessage ''g1'' ''u3'' ''c1'' 5 1600000000000 initDatabase)))))
     = [(''u1'', 2), (''u2'', 1)]
   \<and> topChannels (getAnalytics (sort_key (\<lambda>p. - int (snd p))) 1700000400000 ''g1'' ''week''
      (trackMessage ''g1'' ''u2'' ''c1'' 4 1700000300000
        (trackMessage ''g1'' ''u1'' ''c2'' 9 1700000200000
          (trackMessage ''g1'' ''u1'' ''c1'' 5 1700000100000
            (trackMessage ''g1'' ''u3'' ''c1'' 5 1600000000000 initDatabase)))))
     = [(''c1'', 2), (''c2'', 1)]
   \<and> min 10 (card (m_channel_id `
        {m \<in> set (messages
            (trackMessage ''g1'' ''u2'' ''c1'' 4 1700000300000
              (trackMessage ''g1'' ''u1'' ''c2'' 9 1700000200000
                (trackMessage ''g1'' ''u1'' ''c1'' 5 1700000100000
                  (trackMessage ''g1'' ''u3'' ''c1'' 5 1600000000000 initDatabase))))).
           in_window ''g1'' (1700000400000 - timeRange ''week'') m})) = 2
   \<and> length (filter (\<lambda>m. in_window ''g1'' (1700000400000 - timeRange ''week'') m \<and> m_user_id m = ''u1'')
        (messages
          (trackMessage ''g1'' ''u2'' ''c1'' 4 1700000300000
            (trackMessage ''g1'' ''u1'' ''c2'' 9 1700000200000
              (trackMessage ''g1'' ''u1'' ''c1'' 5 1700000100000
                (trackMessage ''g1'' ''u3'' ''c1'' 5 1600000000000 initDatabase)))))) = 2"
proof -
  let ?db = "trackMessage ''g1'' ''u2'' ''c1'' 4 1700000300000
      (trackMessage ''g1'' ''u1'' ''c2'' 9 1700000200000
        (trackMessage ''g1'' ''u1'' ''c1'' 5 1700000100000
          (trackMessage ''g1'' ''u3'' ''c1'' 5 1600000000000 initDatabase)))"
  let ?o = "sort_key (\<lambda>p :: string \<times> nat. - int (snd p))"
  have h: "\<forall>gs. distinct (map fst gs) \<longrightarrow>
            set (?o gs) = set gs \<and> length (?o gs) = length gs
            \<and> sorted_wrt (\<lambda>p q. snd p \<ge> snd q) (?o gs)"
    using sort_key_orders by blast
  have v: "topUsers (getAnalytics ?o 1700000400000 ''g1'' ''week'' ?db) = [(''u1'', 2), (''u2'', 1)]"
    by code_simp
  have w: "topChannels (getAnalytics ?o 1700000400000 ''g1'' ''week'' ?db) = [(''c1'', 2), (''c2'', 1)]"
    by code_simp
  note t = getAnalytics_top[OF h, of 1700000400000 "''g1''" "''week''" ?db]
  from t have "length (topChannels (getAnalytics ?o 1700000400000 ''g1'' ''week'' ?db))
       = min 10 (card (m_channel_id ` {m \<in> set (messages ?db). in_window ''g1'' (1700000400000 - timeRange ''week'') m}))"
    by blast
  then have l: "min 10 (card (m_channel_id ` {m \<in> set (messages ?db). in_window ''g1'' (1700000400000 - timeRange ''week'') m})) = 2"
    unfolding w by simp
  from t have "\<forall>(u, c) \<in> set (topUsers (getAnalytics ?o 1700000400000 ''g1'' ''week'' ?db)).
        c = length (filter (\<lambda>m. in_window ''g1'' (1700000400000 - timeRange ''week'') m \<and> m_user_id m = u) (messages ?db))"
    by blast
  then have c: "length (filter (\<lambda>m. in_window ''g1'' (1700000400000 - timeRange ''week'') m \<and> m_user_id m = ''u1'') (messages ?db)) = 2"
    unfolding v by simp
  from v w l c show ?thesis by blast
qed



section \<open>The dense heatmap series\<close>

text \<open>
  Claim C7. For any sparse hourly input, the heatmap series has exactly 24 entries, one
  for each hour 0 to 23 in ascending order; the entry of an hour is the count of the
  first input row for that hour (the only one when the hours of the input are
  distinct), and 0 when the input has none.
\<close>

theorem heatmap_dense:
  "length heatmap_hours = 24
   \<and> heatmap_hours = [0..<24]
   \<and> length (heatmap_counts activity) = 24
   \<and> (\<forall>h. h < 24 \<longrightarrow> heatmap_hours ! h = h
            \<and> heatmap_counts activity ! h = (case map_of activity h of Some c \<Rightarrow> c | None \<Rightarrow> 0))
   \<and> (\<forall>h c. distinct (map fst activity) \<and> (h, c) \<in> set activity \<and> h < 24 \<longrightarrow> heatmap_counts activity ! h = c)
   \<and> (\<forall>h. h < 24 \<and> h \<notin> fst ` set activity \<longrightarrow> heatmap_counts activity ! h = 0)"
proof -
  have f: "(case find (\<lambda>a. fst a = h) xs of Some found \<Rightarrow> snd found | None \<Rightarrow> 0)
           = (case map_of xs h of Some c \<Rightarrow> c | None \<Rightarrow> 0)" for h :: nat and xs :: "(nat \<times> nat) list"
    by (induction xs) auto
  have n: "heatmap_counts activity ! h = (case map_of activity h of Some c \<Rightarrow> c | None \<Rightarrow> 0)"
    if "h < 24" for h
    using that by (simp add: heatmap_counts_def heatmap_hours_def f)
  have p: "heatmap_counts activity ! h = c" if "distinct (map fst activity)" "(h, c) \<in> set activity" "h < 24" for h c
    using that n by simp
  have z: "heatmap_counts activity ! h = 0" if "h < 24" "h \<notin> fst ` set activity" for h
    using that n by (simp add: map_of_eq_None_iff[THEN iffD2])
  have hh: "heatmap_hours ! h = h" if "h < 24" for h
    using that by (simp add: heatmap_hours_def)
  have l: "length heatmap_hours = 24" "heatmap_hours = [0..<24]" "length (heatmap_counts activity) = 24"
    by (simp_all add: heatmap_counts_def heatmap_hours_def)
  from l n p z hh show ?thesis by blast
qed

theorem heatmap_dense_witness:
  "heatmap_counts [(3, 5), (22, 1)] = [0, 0, 0, 5, 0, 0, 0, 0, 0, 0, 0, 0, 0, 0, 0, 0, 0, 0, 0, 0, 0, 0, 1, 0]
   \<and> length (heatmap_counts [(3, 5), (22, 1)]) = 24
   \<and> heatmap_counts [(3, 5), (22, 1)] ! 22 = 1
   \<and> heatmap_counts [(3, 5), (22, 1)] ! 4 = 0"
proof -
  note t = heatmap_dense[of "[(3, 5), (22, 1)]"]
  have v: "heatmap_counts [(3, 5), (22, 1)] = [0, 0, 0, 5, 0, 0, 0, 0, 0, 0, 0, 0, 0, 0, 0, 0, 0, 0, 0, 0, 0, 0, 1, 0]"
    by code_simp
  from t have l: "length (heatmap_counts [(3, 5), (22, 1)]) = 24" by blast
  from t have "distinct (map fst [(3 :: nat, 5 :: nat), (22, 1)]) \<and> (22 :: nat, 1 :: nat) \<in> set [(3, 5), (22, 1)] \<and> (22 :: nat) < 24
      \<longrightarrow> heatmap_counts [(3, 5), (22, 1)] ! 22 = 1"
    by blast
  then have a: "heatmap_counts [(3, 5), (22, 1)] ! 22 = 1" by simp
  from t have "(4 :: nat) < 24 \<and> (4 :: nat) \<notin> fst ` set [(3 :: nat, 5 :: nat), (22, 1)] \<longrightarrow> heatmap_counts [(3, 5), (22, 1)] ! 4 = 0"
    by blast
  then have b: "heatmap_counts [(3, 5), (22, 1)] ! 4 = 0" by simp
  from v l a b show ?thesis by blast
qed

section \<open>Expiry of the settings session\<close>

text \<open>
  Claim C2, as the code has it. The collector of a session stops 5 minutes after its
  creation. A component interaction that arrives after that instant does not reach the
  handler of the session: through it the store and the session are unchanged, the
  collector stays ended at every later instant, and the session sends nothing, neither
  a reply nor a new rendering.
\<close>

theorem deliver_after_expiry:
  assumes "t > expires_at s"
  shows "expires_at s = s_created s + 5 * 60 * 1000
       \<and> collector_ended s t
       \<and> deliver s t i db = ([], s, db)
       \<and> (\<forall>t'. t' \<ge> t \<longrightarrow> collector_ended s t' \<and> deliver s t' i' db' = ([], s, db'))"
  using assms by (simp add: deliver_def collector_ended_def expires_at_def collector_time_def)

theorem deliver_after_expiry_witness:
  "expires_at \<lparr>s_guild = ''g1'', s_user = ''u1'', s_channel = ''c1'',
        s_settings = default_row ''g1'',
        s_view = render (default_row ''g1'')
          \<lparr>tracking_field = [], notifications_field = [], log_channel_field = [],
           tracked_channels_field = ''All channels'', tracking_label = [], tracking_style = Success,
           alerts_label = [], alerts_style = Success, channel_options = []\<rparr>,
        s_created = 1000\<rparr> = 301000
   \<and> snd (snd (deliver \<lparr>s_guild = ''g1'', s_user = ''u1'', s_channel = ''c1'',
        s_settings = default_row ''g1'',
        s_view = render (default_row ''g1'')
          \<lparr>tracking_field = [], notifications_field = [], log_channel_field = [],
           tracked_channels_field = ''All channels'', tracking_label = [], tracking_style = Success,
           alerts_label = [], alerts_style = Success, channel_options = []\<rparr>,
        s_created = 1000\<rparr>
      301001
      \<lparr>customId = ''toggle_tracking'', ci_user = ''u1'', ci_channel = ''c1'', ci_values = []\<rparr>
      (snd (getGuildSettings ''g1'' initDatabase))))
     = snd (getGuildSettings ''g1'' initDatabase)"
proof -
  let ?s = "\<lparr>s_guild = ''g1'', s_user = ''u1'', s_channel = ''c1'',
        s_settings = default_row ''g1'',
        s_view = render (default_row ''g1'')
          \<lparr>tracking_field = [], notifications_field = [], log_channel_field = [],
           tracked_channels_field = ''All channels'', tracking_label = [], tracking_style = Success,
           alerts_label = [], alerts_style = Success, channel_options = []\<rparr>,
        s_created = 1000\<rparr>"
  have e: "expires_at ?s = 301000"
    by (simp add: expires_at_def collector_time_def)
  then have l: "301001 > expires_at ?s" by simp
  from deliver_after_expiry[OF l] e show ?thesis by simp
qed

text \<open>
  Claim C2 promises the late operator a "session expired" signal. A press of the
  tracking button 300001 ms after the collector was created is answered with nothing.
\<close>

theorem deliver_after_expiry_counterexample:
  "fst (deliver \<lparr>s_guild = ''g1'', s_user = ''u1'', s_channel = ''c1'',
        s_settings = default_row ''g1'',
        s_view = render (default_row ''g1'')
          \<lparr>tracking_field = [], notifications_field = [], log_channel_field = [],
           tracked_channels_field = ''All channels'', tracking_label = [], tracking_style = Success,
           alerts_label = [], alerts_style = Success, channel_options = []\<rparr>,
        s_created = 0\<rparr>
      300001
      \<lparr>customId = ''toggle_tracking'', ci_user = ''u1'', ci_channel = ''c1'', ci_values = []\<rparr>
      (snd (getGuildSettings ''g1'' initDatabase)))
     = []"
  by (simp add: deliver_def collector_ended_def expires_at_def collector_time_def)

section \<open>Rounding in the change percentage\<close>

lemma round_half_even_error: "\<bar>of_int (round_half_even y) - y\<bar> \<le> 1 / 2"
proof -
  define r where "r = y - of_int \<lfloor>y\<rfloor>"
  have r: "0 \<le> r" "r < 1" unfolding r_def by linarith+
  have e: "of_int (round_half_even y) - y
           = (if r < 1 / 2 then - r else if r > 1 / 2 then 1 - r else if even \<lfloor>y\<rfloor> then - r else 1 - r)"
    by (simp add: round_half_even_def Let_def r_def)
  show ?thesis
    unfolding e using r by (simp add: abs_if)
qed

lemma round_half_even_of_int [simp]: "round_half_even (of_int n) = n"
  by (simp add: round_half_even_def)

lemma exponent_bounds:
  assumes "x \<noteq> 0"
  shows "2 powi (exponent x) \<le> \<bar>x\<bar>" and "\<bar>x\<bar> < 2 powi (exponent x + 1)"
proof -
  obtain a b where q: "quotient_of \<bar>x\<bar> = (a, b)" by (cases "quotient_of \<bar>x\<bar>")
  from assms have pos: "\<bar>x\<bar> > 0" by simp
  have b: "b > 0" using q by (rule quotient_of_denom_pos)
  have x: "\<bar>x\<bar> = of_int a / of_int b" using q by (rule quotient_of_div)
  with pos b have a: "a > 0" by (simp add: zero_less_divide_iff)
  define d where "d = bitlen a - bitlen b"
  have la: "bitlen a \<ge> 1" and lb: "bitlen b \<ge> 1"
    using a b by (simp_all add: bitlen_alt_def)
  have a1: "(2::rat) powi (bitlen a - 1) \<le> of_int a" and a2: "of_int a < (2::rat) powi (bitlen a)"
  proof -
    from bitlen_bounds[OF a] have "2 ^ nat (bitlen a - 1) \<le> a" "a < 2 ^ nat (bitlen a)" by simp_all
    then have "(of_int (2 ^ nat (bitlen a - 1)) :: rat) \<le> of_int a" "(of_int a :: rat) < of_int (2 ^ nat (bitlen a))"
      by (simp_all only: of_int_le_iff of_int_less_iff)
    then show "(2::rat) powi (bitlen a - 1) \<le> of_int a" "of_int a < (2::rat) powi (bitlen a)"
      using la by (simp_all add: power_int_nonneg_exp)
  qed
  have b1: "(2::rat) powi (bitlen b - 1) \<le> of_int b" and b2: "of_int b < (2::rat) powi (bitlen b)"
  proof -
    from bitlen_bounds[OF b] have "2 ^ nat (bitlen b - 1) \<le> b" "b < 2 ^ nat (bitlen b)" by simp_all
    then have "(of_int (2 ^ nat (bitlen b - 1)) :: rat) \<le> of_int b" "(of_int b :: rat) < of_int (2 ^ nat (bitlen b))"
      by (simp_all only: of_int_le_iff of_int_less_iff)
    then show "(2::rat) powi (bitlen b - 1) \<le> of_int b" "of_int b < (2::rat) powi (bitlen b)"
      using lb by (simp_all add: power_int_nonneg_exp)
  qed
  have bpos: "(of_int b :: rat) > 0" using b by simp
  have p1: "(2::rat) powi (bitlen b - 1) > 0" and p2: "(2::rat) powi (bitlen b) > 0"
    by (simp_all add: zero_less_power_int)
  have lower: "(2::rat) powi (d - 1) \<le> \<bar>x\<bar>"
  proof -
    have "(2::rat) powi (d - 1) = 2 powi (bitlen a - 1) / 2 powi (bitlen b)"
      by (simp add: d_def power_int_diff)
    also have "\<dots> \<le> of_int a / 2 powi (bitlen b)"
      using a1 p2 by (simp add: divide_right_mono)
    also have "\<dots> \<le> of_int a / of_int b"
      using b2 bpos a by (simp add: frac_le)
    finally show ?thesis by (simp add: x)
  qed
  have upper: "\<bar>x\<bar> < (2::rat) powi (d + 1)"
  proof -
    have "of_int a / of_int b < (2::rat) powi (bitlen a) / of_int b"
      using a2 bpos by (simp add: divide_strict_right_mono)
    also have "\<dots> \<le> 2 powi (bitlen a) / 2 powi (bitlen b - 1)"
      using b1 p1 by (simp add: frac_le)
    also have "\<dots> = 2 powi (d + 1)"
      by (simp add: d_def power_int_diff power_int_add)
    finally show ?thesis by (simp add: x)
  qed
  have e: "exponent x = (if 2 powi d \<le> \<bar>x\<bar> then d else d - 1)"
    by (simp add: exponent_def q d_def Let_def)
  show "2 powi (exponent x) \<le> \<bar>x\<bar>"
    using lower by (simp add: e)
  show "\<bar>x\<bar> < 2 powi (exponent x + 1)"
    using upper by (auto simp: e)
qed

lemma round_double_error:
  "\<bar>round_double x - x\<bar> \<le> \<bar>x\<bar> / 2 ^ 53"
proof (cases "x = 0")
  case True
  then show ?thesis by (simp add: round_double_def)
next
  case False
  define u :: rat where "u = 2 powi (exponent x - 52)"
  have u: "u > 0" by (simp add: u_def zero_less_power_int)
  have r: "round_double x = of_int (round_half_even (x / u)) * u"
    using False by (simp add: round_double_def u_def Let_def)
  have "\<bar>round_double x - x\<bar> = \<bar>of_int (round_half_even (x / u)) - x / u\<bar> * u"
  proof -
    have "round_double x - x = (of_int (round_half_even (x / u)) - x / u) * u"
      using u by (simp add: r field_simps)
    then show ?thesis using u by (simp add: abs_mult)
  qed
  also have "\<dots> \<le> (1 / 2) * u"
    using round_half_even_error[of "x / u"] u by (simp add: mult_right_mono)
  also have "\<dots> = 2 powi (exponent x) / 2 ^ 53"
    by (simp add: u_def power_int_diff)
  also have "\<dots> \<le> \<bar>x\<bar> / 2 ^ 53"
    using exponent_bounds(1)[OF False] by (simp add: divide_right_mono)
  finally show ?thesis .
qed

lemma round_double_of_int:
  assumes "\<bar>n\<bar> < 2 ^ 53"
  shows "round_double (of_int n) = of_int n"
proof (cases "n = 0")
  case True
  then show ?thesis by (simp add: round_double_def)
next
  case False
  define x :: rat where "x = of_int n"
  define e where "e = exponent x"
  have x0: "x \<noteq> 0" using False by (simp add: x_def)
  have "\<bar>x\<bar> < 2 ^ 53"
  proof -
    have "\<bar>x\<bar> = of_int \<bar>n\<bar>" by (simp add: x_def)
    also have "\<dots> < of_int (2 ^ 53)" using assms by (simp only: of_int_less_iff)
    finally show ?thesis by simp
  qed
  with exponent_bounds(1)[OF x0] have "(2::rat) powi e < 2 powi 53"
    by (simp add: e_def)
  then have "e < 53" by (rule power_int_le_imp_less_exp[rotated]) simp_all
  define k where "k = nat (52 - e)"
  have u: "(2::rat) powi (e - 52) = 1 / 2 ^ k"
  proof -
    have "e - 52 = - int k" using \<open>e < 53\<close> by (simp add: k_def)
    then show ?thesis by (simp add: power_int_minus_divide)
  qed
  have "x / (2 powi (e - 52)) = of_int (n * 2 ^ k)"
    by (simp add: u x_def)
  then have "round_half_even (x / (2 powi (e - 52))) = n * 2 ^ k"
    by (simp only: round_half_even_of_int)
  then have "round_double x = of_int (n * 2 ^ k) * (1 / 2 ^ k)"
    using x0 by (simp add: round_double_def Let_def e_def[symmetric] u)
  then show ?thesis by (simp add: x_def)
qed

lemma fixed1_tenths_error: "\<bar>of_nat (fixed1_tenths x) / 10 - \<bar>x\<bar>\<bar> \<le> 1 / 20"
proof -
  define y where "y = \<bar>x\<bar> * 10 + 1 / 2"
  have y: "y \<ge> 0" by (simp add: y_def)
  then have f: "\<lfloor>y\<rfloor> \<ge> 0" by simp
  have n: "(of_nat (fixed1_tenths x) :: rat) = of_int \<lfloor>y\<rfloor>"
    using f by (simp add: fixed1_tenths_def y_def)
  have "of_int \<lfloor>y\<rfloor> \<le> y" "y < of_int \<lfloor>y\<rfloor> + 1" by linarith+
  then have "\<bar>of_int \<lfloor>y\<rfloor> - \<bar>x\<bar> * 10\<bar> \<le> 1 / 2"
    unfolding y_def by linarith
  then have "\<bar>(of_int \<lfloor>y\<rfloor> - \<bar>x\<bar> * 10) / 10\<bar> \<le> 1 / 20"
    by simp
  then show ?thesis by (simp add: n diff_divide_distrib)
qed

lemma two_roundings:
  fixes q0 :: rat
  shows "\<bar>round_double (round_double q0 * 100) - q0 * 100\<bar> \<le> \<bar>q0 * 100\<bar> / 2 ^ 51"
proof -
  define eps :: rat where "eps = 1 / 2 ^ 53"
  define d1 where "d1 = round_double q0"
  define y where "y = d1 * 100"
  define d where "d = round_double y"
  define q where "q = q0 * 100"
  define A where "A = \<bar>q\<bar>"
  have eps: "0 \<le> eps" "eps \<le> 1" by (simp_all add: eps_def)
  have A: "0 \<le> A" by (simp add: A_def)
  have e1: "\<bar>d1 - q0\<bar> \<le> \<bar>q0\<bar> * eps"
    using round_double_error[of q0] unfolding d1_def eps_def by simp
  have e2: "\<bar>d - y\<bar> \<le> \<bar>y\<bar> * eps"
    using round_double_error[of y] unfolding d_def eps_def by simp
  have yq: "\<bar>y - q\<bar> \<le> A * eps"
  proof -
    have "y - q = (d1 - q0) * 100" unfolding y_def q_def by (rule left_diff_distrib[symmetric])
    then have "\<bar>y - q\<bar> = \<bar>d1 - q0\<bar> * 100" by (simp only: abs_mult abs_numeral)
    also have "\<dots> \<le> (\<bar>q0\<bar> * eps) * 100" using e1 by (rule mult_right_mono) simp
    also have "\<dots> = (\<bar>q0\<bar> * 100) * eps" by (simp only: mult.assoc mult.commute[of eps])
    also have "\<bar>q0\<bar> * 100 = A" unfolding A_def q_def by (simp only: abs_mult abs_numeral)
    finally show ?thesis .
  qed
  have "\<bar>y\<bar> \<le> \<bar>q\<bar> + \<bar>y - q\<bar>" by linarith
  with yq have ya: "\<bar>y\<bar> \<le> A + A * eps" unfolding A_def by linarith
  have "A * eps \<le> A * 1" using eps(2) A by (rule mult_left_mono)
  with ya have "\<bar>y\<bar> \<le> 2 * A" by simp
  then have "\<bar>y\<bar> * eps \<le> (2 * A) * eps" using eps(1) by (rule mult_right_mono)
  with e2 have dy: "\<bar>d - y\<bar> \<le> 2 * (A * eps)" by simp
  have "\<bar>d - q\<bar> \<le> \<bar>d - y\<bar> + \<bar>y - q\<bar>" by linarith
  with dy yq have "\<bar>d - q\<bar> \<le> 3 * (A * eps)" by simp
  also have "\<dots> \<le> 4 * (A * eps)" using A eps(1) by simp
  also have "\<dots> = A / 2 ^ 51" unfolding eps_def by simp
  finally show ?thesis unfolding d_def y_def d1_def q_def A_def .
qed

text \<open>
  Claim C3, as the code has it. For totals below \<open>2^53\<close>, the change is exactly the number
  0 when the previous total is 0. Otherwise it is the text \<^verbatim>\<open>toFixed(1)\<close> of the binary64
  result \<open>d\<close> of the expression: the subtraction is exact, so \<open>d\<close> is the exact quotient
  rounded to a double, times 100, rounded to a double again. \<open>d\<close> is within a relative
  error of \<open>2^-51\<close> of the exact value \<open>(cur - prev) / prev * 100\<close>, and the printed number of
  tenths is within one twentieth of \<open>|d|\<close>. The text is the one-decimal rounding of \<open>d\<close>,
  not always that of the exact value.
\<close>

theorem change_percent:
  assumes "cur < 2 ^ 53" and "prev < 2 ^ 53"
  shows "(prev = 0 \<longrightarrow> change cur prev = Num 0)
       \<and> (prev > 0 \<longrightarrow>
            change cur prev
              = Str (toFixed1 (js_mul (js_div (js_sub (of_nat cur) (of_nat prev)) (of_nat prev)) 100)))
       \<and> js_sub (of_nat cur) (of_nat prev) = of_nat cur - of_nat prev
       \<and> js_mul (js_div (js_sub (of_nat cur) (of_nat prev)) (of_nat prev)) 100
            = round_double (round_double ((of_nat cur - of_nat prev) / of_nat prev) * 100)
       \<and> \<bar>js_mul (js_div (js_sub (of_nat cur) (of_nat prev)) (of_nat prev)) 100
            - (of_nat cur - of_nat prev) / of_nat prev * 100\<bar>
            \<le> \<bar>(of_nat cur - of_nat prev) / of_nat prev * 100\<bar> / 2 ^ 51
       \<and> \<bar>of_nat (fixed1_tenths (js_mul (js_div (js_sub (of_nat cur) (of_nat prev)) (of_nat prev)) 100)) / 10
            - \<bar>js_mul (js_div (js_sub (of_nat cur) (of_nat prev)) (of_nat prev)) 100\<bar>\<bar> \<le> 1 / 20"
proof -
  have sub: "js_sub (of_nat cur) (of_nat prev) = of_nat cur - of_nat prev"
  proof -
    have "\<bar>int cur - int prev\<bar> < 2 ^ 53"
      using assms by (simp add: abs_if)
    from round_double_of_int[OF this] show ?thesis
      by (simp add: js_sub_def)
  qed
  have d: "js_mul (js_div (js_sub (of_nat cur) (of_nat prev)) (of_nat prev)) 100
            = round_double (round_double ((of_nat cur - of_nat prev) / of_nat prev) * 100)"
    by (simp add: js_mul_def js_div_def sub)
  have e: "\<bar>js_mul (js_div (js_sub (of_nat cur) (of_nat prev)) (of_nat prev)) 100
            - (of_nat cur - of_nat prev) / of_nat prev * 100\<bar>
            \<le> \<bar>(of_nat cur - of_nat prev) / of_nat prev * 100\<bar> / 2 ^ 51"
    unfolding d by (rule two_roundings)
  have z: "change cur prev = Num 0" if "prev = 0"
    using that by (simp add: change_def)
  have c: "change cur prev
              = Str (toFixed1 (js_mul (js_div (js_sub (of_nat cur) (of_nat prev)) (of_nat prev)) 100))"
    if "prev > 0"
    using that by (simp add: change_def)
  from z c sub d e fixed1_tenths_error show ?thesis by blast
qed

text \<open>
  Claim C3 says that the change is the exact value rounded to one decimal. For 103
  messages after 80 the exact value is 28.75, which \<^verbatim>\<open>toFixed(1)\<close> would print as 28.8; the
  double that the code computes lies just below 28.75 and is printed as 28.7.
\<close>

theorem change_percent_counterexample:
  "change 103 80 = Str ''28.7''
   \<and> (of_nat 103 - of_nat 80) / of_nat 80 * 100 = (115 / 4 :: rat)
   \<and> toFixed1 ((of_nat 103 - of_nat 80) / of_nat 80 * 100) = ''28.8''"
  by code_simp

theorem change_percent_witness:
  "(103 :: nat) < 2 ^ 53 \<and> (80 :: nat) < 2 ^ 53 \<and> (0 :: nat) < 2 ^ 53
   \<and> change 103 0 = Num 0
   \<and> change 103 80 = Str (toFixed1 (round_double (round_double (23 / 80) * 100)))
   \<and> toFixed1 (round_double (round_double (23 / 80) * 100)) = ''28.7''
   \<and> change 150 100 = Str ''50.0''"
proof -
  have a: "(103 :: nat) < 2 ^ 53" "(80 :: nat) < 2 ^ 53" "(0 :: nat) < 2 ^ 53" by simp_all
  have v: "change 150 100 = Str ''50.0''" by code_simp
  have p: "toFixed1 (round_double (round_double (23 / 80) * 100)) = ''28.7''" by code_simp
  from change_percent[OF a(1) a(3)] have z: "change 103 0 = Num 0" by simp
  note t = change_percent[OF a(1) a(2)]
  have pos: "(0 :: nat) < 80" by simp
  from t pos have c1: "change 103 80
          = Str (toFixed1 (js_mul (js_div (js_sub (of_nat 103) (of_nat 80)) (of_nat 80)) 100))"
    by blast
  from t have c2: "js_mul (js_div (js_sub (of_nat 103) (of_nat 80)) (of_nat 80)) 100
          = round_double (round_double ((of_nat 103 - of_nat 80) / of_nat 80) * 100)"
    by blast
  have c3: "(of_nat 103 - of_nat 80) / of_nat 80 = (23 / 80 :: rat)" by simp
  have c: "change 103 80 = Str (toFixed1 (round_double (round_double (23 / 80) * 100)))"
    unfolding c1 c2 c3 by (rule refl)
  from a z c p v show ?thesis by blast
qed

end
